theory Spec2Isabelle
  imports Complex_Main
begin

text \<open>
  Naming: a private member \<open>name_\<close> of a C++ class is the record field \<open>name'\<close>
  (a name cannot end in an underscore here; the mixer's \<open>settings_\<close> is
  \<open>mixer_settings'\<close>, the compressor having a \<open>settings_\<close> too). Member functions
  keep their names, prefixed with the class where two classes share one. A constructor
  or a struct's default value carries the name of its type.
\<close>

section \<open>Sample values\<close>

text \<open>
  The engine computes in 32-bit floats. The embedding idealises a float as a real number
  (no rounding, no overflow) and adds the one value that the analysis path can create out
  of finite inputs, the NaN of \<open>0.0f / 0\<close>. Every operation on floats that the
  AudioBuffer and AutoMixer code performs is lifted to \<open>fval\<close> with the IEEE
  rule that NaN propagates and that every comparison with NaN is false. Where a property
  depends on how floats round (the bin functions of the spectrum analyzer, the formula of
  the level analysis), the arithmetic is a parameter of the model instead.
\<close>

datatype fval = Num real | NaN

fun fadd :: "fval \<Rightarrow> fval \<Rightarrow> fval" where
  "fadd (Num a) (Num b) = Num (a + b)"
| "fadd _ _ = NaN"

fun fsub :: "fval \<Rightarrow> fval \<Rightarrow> fval" where
  "fsub (Num a) (Num b) = Num (a - b)"
| "fsub _ _ = NaN"

fun fmul :: "fval \<Rightarrow> fval \<Rightarrow> fval" where
  "fmul (Num a) (Num b) = Num (a * b)"
| "fmul _ _ = NaN"

text \<open>\<open>a < b\<close> on floats: false as soon as one side is NaN.\<close>

fun flt :: "fval \<Rightarrow> fval \<Rightarrow> bool" where
  "flt (Num a) (Num b) = (a < b)"
| "flt _ _ = False"

text \<open>\<open>std::max(a, b)\<close> is \<open>(a < b) ? b : a\<close>.\<close>

definition fmax :: "fval \<Rightarrow> fval \<Rightarrow> fval" where
  "fmax a b = (if flt a b then b else a)"

text \<open>
  Division of a float by a float. A zero divisor leaves the finite reals: the model
  returns NaN there (IEEE gives NaN for \<open>0/0\<close> and an infinity otherwise; the only
  float divisor of the analysis path is the constant 20).
\<close>

fun fdiv :: "fval \<Rightarrow> fval \<Rightarrow> fval" where
  "fdiv (Num a) (Num b) = (if b = 0 then NaN else Num (a / b))"
| "fdiv _ _ = NaN"

text \<open>
  Division of a float accumulator by a \<open>size_t\<close> count, as in \<open>sum / totalSamples\<close>.
  At both call sites the accumulator is still \<open>0.0f\<close> when the count is 0 (the loop
  that increments the one adds to the other), so the zero-divisor result is the NaN of
  \<open>0/0\<close>.
\<close>

fun fdiv_size :: "fval \<Rightarrow> nat \<Rightarrow> fval" where
  "fdiv_size (Num a) n = (if n = 0 then NaN else Num (a / real n))"
| "fdiv_size NaN n = NaN"

text \<open>\<open>std::log10\<close> (finite on positive arguments only) and \<open>std::pow(10.0f, x)\<close>.\<close>

fun flog10 :: "fval \<Rightarrow> fval" where
  "flog10 (Num a) = (if 0 < a then Num (log 10 a) else NaN)"
| "flog10 NaN = NaN"

fun fpow10 :: "fval \<Rightarrow> fval" where
  "fpow10 (Num a) = Num (10 powr a)"
| "fpow10 NaN = NaN"

section \<open>AudioBuffer (core/audio\_buffer.h)\<close>

record AudioBuffer =
  channels' :: nat
  samples' :: nat
  data' :: "fval list list"

text \<open>The constructor \<open>AudioBuffer(channels, samples)\<close>: zero-filled planes.\<close>

definition AudioBuffer :: "nat \<Rightarrow> nat \<Rightarrow> AudioBuffer" where
  "AudioBuffer channels samples =
     \<lparr>channels' = channels, samples' = samples,
      data' = replicate channels (replicate samples (Num 0))\<rparr>"

definition getNumChannels :: "AudioBuffer \<Rightarrow> nat" where
  "getNumChannels b = channels' b"

definition getNumSamples :: "AudioBuffer \<Rightarrow> nat" where
  "getNumSamples b = samples' b"

text \<open>
  The class invariant: the constructor establishes it and every member function keeps
  it (the planes are only written in place), so every buffer a caller can hold has it.
\<close>

definition buffer_wf :: "AudioBuffer \<Rightarrow> bool" where
  "buffer_wf b \<longleftrightarrow>
     length (data' b) = channels' b \<and> list_all (\<lambda>plane. length plane = samples' b) (data' b)"

text \<open>
  \<open>applyGain\<close>: the 8-wide loop and the scalar tail both compute
  \<open>channel[i] * gain\<close> for every index, once.
\<close>

definition applyGain :: "fval \<Rightarrow> AudioBuffer \<Rightarrow> AudioBuffer" where
  "applyGain g b = b\<lparr>data' := map (map (\<lambda>x. fmul x g)) (data' b)\<rparr>"

text \<open>
  \<open>addFrom\<close>: \<open>dst[i] += src[i] * gain\<close> for the first \<open>min(samples_, other.samples_)\<close>
  indices of the first \<open>min(channels_, other.channels_)\<close> planes; nothing else is
  written.
\<close>

definition add_plane :: "nat \<Rightarrow> fval \<Rightarrow> fval list \<Rightarrow> fval list \<Rightarrow> fval list" where
  "add_plane numSamples g dst src =
     map (\<lambda>i. if i < numSamples then fadd (dst ! i) (fmul (src ! i) g) else dst ! i)
       [0..<length dst]"

definition addFrom :: "AudioBuffer \<Rightarrow> fval \<Rightarrow> AudioBuffer \<Rightarrow> AudioBuffer" where
  "addFrom other g self =
     (let numChannels = min (channels' self) (channels' other);
          numSamples = min (samples' self) (samples' other)
      in self\<lparr>data' :=
           map (\<lambda>ch. if ch < numChannels
                      then add_plane numSamples g (data' self ! ch) (data' other ! ch)
                      else data' self ! ch)
             [0..<length (data' self)]\<rparr>)"

section \<open>Compressor (effects/compressor.h, effects/compressor.cpp)\<close>

text \<open>
  The effects work on raw \<open>float*\<close> blocks. They are modelled on finite samples, a
  float being a real number.
\<close>

record CompressorSettings =
  threshold :: real
  ratio :: real
  attack :: real
  release :: real
  knee :: real
  makeupGain :: real

text \<open>The default member initialisers of \<open>CompressorSettings\<close>.\<close>

definition CompressorSettings :: CompressorSettings where
  "CompressorSettings =
     \<lparr>threshold = -12, ratio = 4, attack = 10, release = 100, knee = 2, makeupGain = 0\<rparr>"

record Compressor =
  settings' :: CompressorSettings
  envelope' :: real
  currentGainReduction' :: real
  attackCoeff' :: real
  releaseCoeff' :: real

text \<open>
  \<open>updateCoefficients\<close>. With a zero attack or release time the float quotient
  \<open>-1.0f / 0.0f\<close> is minus infinity and its exponential is 0.
\<close>

definition Compressor_updateCoefficients :: "real \<Rightarrow> Compressor \<Rightarrow> Compressor" where
  "Compressor_updateCoefficients sampleRate c =
     (let attackSamples = attack (settings' c) * sampleRate / 1000;
          releaseSamples = release (settings' c) * sampleRate / 1000
      in c\<lparr>attackCoeff' := (if attackSamples = 0 then 0 else exp (- 1 / attackSamples)),
            releaseCoeff' := (if releaseSamples = 0 then 0 else exp (- 1 / releaseSamples))\<rparr>)"

definition Compressor :: "CompressorSettings \<Rightarrow> Compressor" where
  "Compressor s =
     Compressor_updateCoefficients 48000
       \<lparr>settings' = s, envelope' = 0, currentGainReduction' = 0,
        attackCoeff' = 0, releaseCoeff' = 0\<rparr>"

definition setSettings :: "CompressorSettings \<Rightarrow> Compressor \<Rightarrow> Compressor" where
  "setSettings s c = Compressor_updateCoefficients 48000 (c\<lparr>settings' := s\<rparr>)"

definition computeGain :: "Compressor \<Rightarrow> real \<Rightarrow> real" where
  "computeGain c inputLevel =
     (let inputDb = 20 * log 10 (max inputLevel (1 / 10 ^ 10));
          kneeStart = threshold (settings' c) - knee (settings' c) / 2;
          kneeEnd = threshold (settings' c) + knee (settings' c) / 2;
          gainReduction =
            (if inputDb > kneeEnd then
               (let excess = inputDb - threshold (settings' c)
                in excess * (1 - 1 / ratio (settings' c)))
             else if inputDb > kneeStart then
               (let kneeProgress = (inputDb - kneeStart) / knee (settings' c);
                    excess = inputDb - threshold (settings' c)
                in excess * (1 - 1 / ratio (settings' c)) * kneeProgress * kneeProgress)
             else 0)
      in 10 powr ((- gainReduction + makeupGain (settings' c)) / 20))"

text \<open>One iteration of the loop of \<open>Compressor::process\<close>: the new state and sample.\<close>

definition compress_sample :: "Compressor \<Rightarrow> real \<Rightarrow> Compressor \<times> real" where
  "compress_sample c x =
     (let inputLevel = \<bar>x\<bar>;
          env = (if inputLevel > envelope' c
                 then inputLevel + (envelope' c - inputLevel) * attackCoeff' c
                 else inputLevel + (envelope' c - inputLevel) * releaseCoeff' c);
          c1 = c\<lparr>envelope' := env\<rparr>;
          g = computeGain c1 env
      in (c1\<lparr>currentGainReduction' := 20 * log 10 g\<rparr>, x * g))"

fun Compressor_process :: "Compressor \<Rightarrow> real list \<Rightarrow> Compressor \<times> real list" where
  "Compressor_process c [] = (c, [])"
| "Compressor_process c (x # xs) =
     (let (c1, y) = compress_sample c x;
          (c2, ys) = Compressor_process c1 xs
      in (c2, y # ys))"

section \<open>Equalizer (effects/equalizer.h, effects/equalizer.cpp)\<close>

datatype EQBandType = PEAK | HIGH_SHELF | LOW_SHELF | HIGH_PASS | LOW_PASS

record EQBand =
  frequency :: real
  gain :: real
  q :: real
  type :: EQBandType

text \<open>The default member initialisers of \<open>EQBand\<close>.\<close>

definition EQBand :: EQBand where
  "EQBand = \<lparr>frequency = 1000, gain = 0, q = 0.7, type = PEAK\<rparr>"

record BiquadCoeffs =
  a0 :: real
  a1 :: real
  a2 :: real
  b1 :: real
  b2 :: real

record BiquadState =
  x1 :: real
  x2 :: real
  y1 :: real
  y2 :: real

text \<open>What \<open>std::vector::resize\<close> appends: value-initialised elements.\<close>

definition BiquadCoeffs :: BiquadCoeffs where
  "BiquadCoeffs = \<lparr>a0 = 0, a1 = 0, a2 = 0, b1 = 0, b2 = 0\<rparr>"

definition BiquadState :: BiquadState where
  "BiquadState = \<lparr>x1 = 0, x2 = 0, y1 = 0, y2 = 0\<rparr>"

definition resize :: "nat \<Rightarrow> 'a \<Rightarrow> 'a list \<Rightarrow> 'a list" where
  "resize n d xs = take n xs @ replicate (n - length xs) d"

record Equalizer =
  bands' :: "EQBand list"
  coeffs' :: "BiquadCoeffs list"
  states' :: "BiquadState list"

definition Equalizer :: Equalizer where
  "Equalizer = \<lparr>bands' = [], coeffs' = [], states' = []\<rparr>"

text \<open>The three vectors are resized and cleared together: they have one length.\<close>

definition equalizer_wf :: "Equalizer \<Rightarrow> bool" where
  "equalizer_wf e \<longleftrightarrow>
     length (coeffs' e) = length (bands' e) \<and> length (states' e) = length (bands' e)"

text \<open>
  \<open>calculateCoeffs\<close>, over the reals. The quotients are those of the source for
  \<open>q \<noteq> 0\<close> and a non-zero normalising \<open>a0\<close>; at a zero divisor the source stores
  infinities or NaN, which this definition does not describe.
\<close>

definition calculateCoeffs :: "EQBand \<Rightarrow> real \<Rightarrow> BiquadCoeffs" where
  "calculateCoeffs band sampleRate =
     (let omega = 2 * pi * frequency band / sampleRate;
          sin_omega = sin omega;
          cos_omega = cos omega;
          alpha = sin_omega / (2 * q band);
          A = 10 powr (gain band / 40)
      in case type band of
           PEAK \<Rightarrow>
             (let b0n = 1 + alpha * A;
                  b1n = - 2 * cos_omega;
                  b2n = 1 - alpha * A;
                  a0n = 1 + alpha / A;
                  a1n = - 2 * cos_omega;
                  a2n = 1 - alpha / A
              in \<lparr>a0 = b0n / a0n, a1 = b1n / a0n, a2 = b2n / a0n,
                  b1 = a1n / a0n, b2 = a2n / a0n\<rparr>)
         | _ \<Rightarrow> \<lparr>a0 = 1, a1 = 0, a2 = 0, b1 = 0, b2 = 0\<rparr>)"

definition Equalizer_updateCoefficients :: "real \<Rightarrow> Equalizer \<Rightarrow> Equalizer" where
  "Equalizer_updateCoefficients sampleRate e =
     foldl (\<lambda>e i. e\<lparr>coeffs' := (coeffs' e)[i := calculateCoeffs (bands' e ! i) sampleRate]\<rparr>)
       e [0..<length (bands' e)]"

definition setBand :: "nat \<Rightarrow> EQBand \<Rightarrow> Equalizer \<Rightarrow> Equalizer" where
  "setBand index band e =
     (let e1 = (if index \<ge> length (bands' e)
                then e\<lparr>bands' := resize (index + 1) EQBand (bands' e),
                       coeffs' := resize (index + 1) BiquadCoeffs (coeffs' e),
                       states' := resize (index + 1) BiquadState (states' e)\<rparr>
                else e);
          e2 = e1\<lparr>bands' := (bands' e1)[index := band]\<rparr>
      in Equalizer_updateCoefficients 48000 e2)"

definition clearBands :: "Equalizer \<Rightarrow> Equalizer" where
  "clearBands e = e\<lparr>bands' := [], coeffs' := [], states' := []\<rparr>"

text \<open>The inner loop of \<open>Equalizer::process\<close>: one section run over the block.\<close>

fun biquad_run :: "BiquadCoeffs \<Rightarrow> BiquadState \<Rightarrow> real list \<Rightarrow> BiquadState \<times> real list" where
  "biquad_run c s [] = (s, [])"
| "biquad_run c s (input # rest) =
     (let output = a0 c * input + a1 c * x1 s + a2 c * x2 s - b1 c * y1 s - b2 c * y2 s;
          s1 = \<lparr>x1 = input, x2 = x1 s, y1 = output, y2 = y1 s\<rparr>;
          (s2, outs) = biquad_run c s1 rest
      in (s2, output # outs))"

text \<open>The outer loop: the sections in index order, each over the whole block.\<close>

definition Equalizer_process :: "Equalizer \<Rightarrow> real list \<Rightarrow> Equalizer \<times> real list" where
  "Equalizer_process e samples =
     foldl (\<lambda>(e, block) band.
              let (s, block1) = biquad_run (coeffs' e ! band) (states' e ! band) block
              in (e\<lparr>states' := (states' e)[band := s]\<rparr>, block1))
       (e, samples) [0..<length (bands' e)]"

text \<open>A buffer handed over in contiguous chunks, one call of \<open>process\<close> per chunk.\<close>

fun process_chunks :: "Equalizer \<Rightarrow> real list list \<Rightarrow> Equalizer \<times> real list" where
  "process_chunks e [] = (e, [])"
| "process_chunks e (chunk # chunks) =
     (let (e1, out1) = Equalizer_process e chunk;
          (e2, out2) = process_chunks e1 chunks
      in (e2, out1 @ out2))"

section \<open>SpectrumAnalyzer (dsp/spectrum\_analyzer.h, dsp/spectrum\_analyzer.cpp)\<close>

text \<open>
  Of the analyzer's members only the FFT size takes part in the two bin functions; the
  window and the FFT buffer are left out.
\<close>

record SpectrumAnalyzer =
  fftSize' :: nat

definition SpectrumAnalyzer :: "nat \<Rightarrow> SpectrumAnalyzer" where
  "SpectrumAnalyzer fftSize = \<lparr>fftSize' = fftSize\<rparr>"

text \<open>
  The two bin functions compute in single precision: each multiplication, division and
  conversion of a \<open>size_t\<close> operand returns the exact real result rounded to the format.
  A \<open>rounding\<close> is that last step: \<open>Num\<close> of the rounded value, or \<open>NaN\<close>, which in the
  operations below stands for any result that is not a finite float (an infinity after an
  overflow or a division by zero, or a NaN). The functions take the rounding as a
  parameter, so that what is proved of them holds for every format and rounding mode;
  \<open>exact\<close> is the rounding that changes nothing.
\<close>

type_synonym rounding = "real \<Rightarrow> fval"

definition exact :: rounding where
  "exact x = Num x"

fun fmul_r :: "rounding \<Rightarrow> fval \<Rightarrow> fval \<Rightarrow> fval" where
  "fmul_r rnd (Num a) (Num b) = rnd (a * b)"
| "fmul_r rnd _ _ = NaN"

fun fdiv_r :: "rounding \<Rightarrow> fval \<Rightarrow> fval \<Rightarrow> fval" where
  "fdiv_r rnd (Num a) (Num b) = (if b = 0 then NaN else rnd (a / b))"
| "fdiv_r rnd _ _ = NaN"

text \<open>The conversion of a \<open>size_t\<close> operand that meets a float operand.\<close>

definition size_to_float :: "rounding \<Rightarrow> nat \<Rightarrow> fval" where
  "size_to_float rnd n = rnd (real n)"

text \<open>
  \<open>static_cast<size_t>(x)\<close> of a finite float discards the fractional part; it is defined
  when the truncated value fits the (64-bit) type, and undefined behaviour otherwise.
\<close>

definition float_to_size_t :: "real \<Rightarrow> nat option" where
  "float_to_size_t x =
     (if - 1 < x \<and> x < 2 ^ 64 then Some (nat (if x < 0 then \<lceil>x\<rceil> else \<lfloor>x\<rfloor>)) else None)"

text \<open>
  \<open>getFrequencyBin\<close>: the cast of the float \<open>frequency * fftSize_ / sampleRate\<close>. A
  quotient that is not a finite float (a zero sample rate, an overflow) is outside the
  domain of the cast.
\<close>

definition getFrequencyBin :: "rounding \<Rightarrow> SpectrumAnalyzer \<Rightarrow> real \<Rightarrow> real \<Rightarrow> nat option" where
  "getFrequencyBin rnd sa freq sampleRate =
     (case fdiv_r rnd (fmul_r rnd (Num freq) (size_to_float rnd (fftSize' sa))) (Num sampleRate) of
        Num v \<Rightarrow> float_to_size_t v
      | NaN \<Rightarrow> None)"

text \<open>\<open>getBinFrequency\<close>: the float \<open>bin * sampleRate / fftSize_\<close>.\<close>

definition getBinFrequency :: "rounding \<Rightarrow> SpectrumAnalyzer \<Rightarrow> nat \<Rightarrow> real \<Rightarrow> fval" where
  "getBinFrequency rnd sa bin sampleRate =
     fdiv_r rnd (fmul_r rnd (size_to_float rnd bin) (Num sampleRate))
       (size_to_float rnd (fftSize' sa))"

section \<open>AutoMixer (dsp/auto\_mixer.h, dsp/auto\_mixer.cpp)\<close>

record AutoMixerSettings =
  targetLUFS :: real
  maxGainReduction :: real
  frequencySeparation :: real
  enableDynamicEQ :: bool
  enableSpatialProcessing :: bool
  mixBusCompRatio :: real
  mixBusCompThreshold :: real

text \<open>The default member initialisers of \<open>AutoMixerSettings\<close>.\<close>

definition AutoMixerSettings :: AutoMixerSettings where
  "AutoMixerSettings =
     \<lparr>targetLUFS = -16, maxGainReduction = 12, frequencySeparation = 3,
      enableDynamicEQ = True, enableSpatialProcessing = True,
      mixBusCompRatio = 2, mixBusCompThreshold = -6\<rparr>"

record MixParameters =
  trackGains :: "fval list"
  trackEQs :: "EQBand list list"
  panPositions :: "real list"
  mixBusCompressor :: CompressorSettings

text \<open>
  The mixer: its settings and the processors it owns (\<open>None\<close> is the null
  \<open>unique_ptr\<close>). The per-track equalizer vector \<open>trackEQs_\<close> is never touched.
\<close>

record AutoMixer =
  mixer_settings' :: AutoMixerSettings
  analyzer' :: "SpectrumAnalyzer option"
  mixBusCompressor' :: "Compressor option"

text \<open>The constructor, \<open>initializeProcessors\<close> included.\<close>

definition AutoMixer :: "AutoMixerSettings \<Rightarrow> AutoMixer" where
  "AutoMixer s =
     \<lparr>mixer_settings' = s, analyzer' = Some (SpectrumAnalyzer 2048),
      mixBusCompressor' = Some (Compressor CompressorSettings)\<rparr>"

text \<open>
  \<open>measureLUFS\<close>. The two nested loops carry the pair \<open>(sum, totalSamples)\<close>;
  \<open>measure_loop\<close> is its value when they end.
\<close>

definition measure_loop :: "AudioBuffer \<Rightarrow> fval \<times> nat" where
  "measure_loop buffer =
     foldl (\<lambda>acc ch.
              foldl (\<lambda>(s, n) i.
                       (fadd s (fmul (data' buffer ! ch ! i) (data' buffer ! ch ! i)), Suc n))
                acc [0..<getNumSamples buffer])
       (Num 0, 0) [0..<getNumChannels buffer]"

definition measureLUFS :: "AudioBuffer \<Rightarrow> fval" where
  "measureLUFS buffer =
     (let (sum, totalSamples) = measure_loop buffer;
          meanSquare = fdiv_size sum totalSamples;
          lufs = fadd (Num (- 0.691)) (fmul (Num 10) (flog10 (fadd meanSquare (Num (1 / 10 ^ 10)))))
      in lufs)"

text \<open>
  The average that \<open>calculateOptimalLevels\<close> computes from the measured values (and then
  does not use): \<open>std::accumulate(..., 0.0f) / lufsValues.size()\<close>.
\<close>

definition avgLUFS :: "fval list \<Rightarrow> fval" where
  "avgLUFS lufsValues = fdiv_size (foldl fadd (Num 0) lufsValues) (length lufsValues)"

definition calculateOptimalLevels :: "AutoMixer \<Rightarrow> AudioBuffer list \<Rightarrow> fval list" where
  "calculateOptimalLevels m tracks =
     (let lufsValues = map measureLUFS tracks;
          avg = avgLUFS lufsValues
      in map (\<lambda>lufs.
                let targetGain = fsub (Num (targetLUFS (mixer_settings' m))) lufs;
                    targetGain1 = fmax targetGain (Num (- maxGainReduction (mixer_settings' m)))
                in fpow10 (fdiv targetGain1 (Num 20)))
           lufsValues)"

definition resolveFrequencyConflicts ::
  "AudioBuffer list \<Rightarrow> EQBand list list \<Rightarrow> EQBand list list" where
  "resolveFrequencyConflicts tracks eqSettings =
     foldl (\<lambda>eqs i. eqs[i := eqs ! i @ [EQBand\<lparr>frequency := 1000 * (real i + 1), gain := 2, q := 0.7\<rparr>]])
       eqSettings [0..<length tracks]"

text \<open>
  \<open>calculatePanPositions\<close>. For the empty list \<open>tracks.size() - 1\<close> wraps around, but
  the step is then never used: the loop does not run.
\<close>

definition calculatePanPositions :: "AudioBuffer list \<Rightarrow> real list" where
  "calculatePanPositions tracks =
     (if length tracks = 1 then [0]
      else (let panRange = 0.8;
                step = (2 * panRange) / real (length tracks - 1)
            in map (\<lambda>i. - panRange + real i * step) [0..<length tracks]))"

definition analyzeTracks :: "AutoMixer \<Rightarrow> AudioBuffer list \<Rightarrow> MixParameters" where
  "analyzeTracks m tracks =
     (let gains = calculateOptimalLevels m tracks;
          eqs0 = replicate (length tracks) [];
          eqs = (if enableDynamicEQ (mixer_settings' m)
                 then resolveFrequencyConflicts tracks eqs0 else eqs0);
          pans = (if enableSpatialProcessing (mixer_settings' m)
                  then calculatePanPositions tracks
                  else replicate (length tracks) 0)
      in \<lparr>trackGains = gains, trackEQs = eqs, panPositions = pans,
          mixBusCompressor =
            CompressorSettings\<lparr>threshold := mixBusCompThreshold (mixer_settings' m),
                               ratio := mixBusCompRatio (mixer_settings' m),
                               attack := 10, release := 100\<rparr>\<rparr>)"

text \<open>
  The body of the track loop of \<open>AutoMixer::process\<close>. The EQ branch and the pan branch
  are empty in the source (a comment each), so both arms leave the working copy as it is.
\<close>

definition mix_track :: "AutoMixer \<Rightarrow> MixParameters \<Rightarrow> AudioBuffer list \<Rightarrow> AudioBuffer \<Rightarrow> nat \<Rightarrow> AudioBuffer" where
  "mix_track m mixParams tracks mixBus i =
     (let trackCopy = applyGain (trackGains mixParams ! i) (tracks ! i);
          trackCopy1 = (if enableDynamicEQ (mixer_settings' m) \<and> trackEQs mixParams ! i \<noteq> []
                        then trackCopy else trackCopy);
          trackCopy2 = (if enableSpatialProcessing (mixer_settings' m)
                        then trackCopy1 else trackCopy1)
      in addFrom trackCopy2 (Num 1) mixBus)"

text \<open>
  \<open>AutoMixer::process\<close>. The compressor branch after the loop is empty as well.
\<close>

definition AutoMixer_process :: "AutoMixer \<Rightarrow> AudioBuffer list \<Rightarrow> AudioBuffer" where
  "AutoMixer_process m tracks =
     (if tracks = [] then AudioBuffer 2 0
      else
        (let mixParams = analyzeTracks m tracks;
             maxSamples = foldl (\<lambda>n track. max n (getNumSamples track)) 0 tracks;
             mixBus = AudioBuffer 2 maxSamples;
             mixBus1 = foldl (mix_track m mixParams tracks) mixBus [0..<length tracks];
             mixBus2 = (if mixBusCompressor' m \<noteq> None then mixBus1 else mixBus1)
         in mixBus2))"

section \<open>The level analysis over an arbitrary float arithmetic\<close>

text \<open>
  \<open>measureLUFS\<close> and \<open>calculateOptimalLevels\<close> once more, this time without idealising the
  arithmetic: the type of float values and every operation on it (literals, the
  conversion of a \<open>size_t\<close>, negation, the four operations, \<open>operator<\<close>, \<open>std::log10\<close>
  and \<open>std::pow\<close>) are parameters. Single precision with its rounding, infinities and
  NaN is one instance; the operations on \<open>fval\<close> used above are another
  (\<open>exact_ops\<close>).
\<close>

record 'f float_ops =
  f_const :: "real \<Rightarrow> 'f"
  f_of_size :: "nat \<Rightarrow> 'f"
  f_neg :: "'f \<Rightarrow> 'f"
  f_add :: "'f \<Rightarrow> 'f \<Rightarrow> 'f"
  f_sub :: "'f \<Rightarrow> 'f \<Rightarrow> 'f"
  f_mul :: "'f \<Rightarrow> 'f \<Rightarrow> 'f"
  f_div :: "'f \<Rightarrow> 'f \<Rightarrow> 'f"
  f_less :: "'f \<Rightarrow> 'f \<Rightarrow> bool"
  f_log10 :: "'f \<Rightarrow> 'f"
  f_pow :: "'f \<Rightarrow> 'f \<Rightarrow> 'f"

text \<open>\<open>std::max(a, b)\<close> is \<open>(a < b) ? b : a\<close>.\<close>

definition f_max :: "'f float_ops \<Rightarrow> 'f \<Rightarrow> 'f \<Rightarrow> 'f" where
  "f_max ops a b = (if f_less ops a b then b else a)"

text \<open>An \<open>AudioBuffer\<close> whose samples are of the arithmetic's float type.\<close>

record 'f FloatBuffer =
  fb_channels :: nat
  fb_samples :: nat
  fb_data :: "'f list list"

definition floatbuffer_wf :: "'f FloatBuffer \<Rightarrow> bool" where
  "floatbuffer_wf b \<longleftrightarrow>
     length (fb_data b) = fb_channels b \<and>
     list_all (\<lambda>plane. length plane = fb_samples b) (fb_data b)"

definition measure_loop_f :: "'f float_ops \<Rightarrow> 'f FloatBuffer \<Rightarrow> 'f \<times> nat" where
  "measure_loop_f ops buffer =
     foldl (\<lambda>acc ch.
              foldl (\<lambda>(s, n) i.
                       (f_add ops s (f_mul ops (fb_data buffer ! ch ! i) (fb_data buffer ! ch ! i)),
                        Suc n))
                acc [0..<fb_samples buffer])
       (f_const ops 0, 0) [0..<fb_channels buffer]"

definition measureLUFS_f :: "'f float_ops \<Rightarrow> 'f FloatBuffer \<Rightarrow> 'f" where
  "measureLUFS_f ops buffer =
     (let (sum, totalSamples) = measure_loop_f ops buffer;
          meanSquare = f_div ops sum (f_of_size ops totalSamples);
          lufs = f_add ops (f_neg ops (f_const ops 0.691))
                   (f_mul ops (f_const ops 10)
                      (f_log10 ops (f_add ops meanSquare (f_const ops (1 / 10 ^ 10)))))
      in lufs)"

text \<open>
  \<open>calculateOptimalLevels\<close>, the two settings it reads being given as floats.
\<close>

definition calculateOptimalLevels_f ::
  "'f float_ops \<Rightarrow> 'f \<Rightarrow> 'f \<Rightarrow> 'f FloatBuffer list \<Rightarrow> 'f list" where
  "calculateOptimalLevels_f ops targetLUFS_f maxGainReduction_f tracks =
     (let lufsValues = map (measureLUFS_f ops) tracks;
          avg = f_div ops (foldl (f_add ops) (f_const ops 0) lufsValues)
                  (f_of_size ops (length lufsValues))
      in map (\<lambda>lufs.
                let targetGain = f_sub ops targetLUFS_f lufs;
                    targetGain1 = f_max ops targetGain (f_neg ops maxGainReduction_f)
                in f_pow ops (f_const ops 10) (f_div ops targetGain1 (f_const ops 20)))
           lufsValues)"

text \<open>
  The idealised arithmetic as an instance, and a buffer of \<open>fval\<close> samples as a
  \<open>FloatBuffer\<close>.
\<close>

fun fneg :: "fval \<Rightarrow> fval" where
  "fneg (Num a) = Num (- a)"
| "fneg NaN = NaN"

fun fpow :: "fval \<Rightarrow> fval \<Rightarrow> fval" where
  "fpow (Num a) (Num b) = Num (a powr b)"
| "fpow _ _ = NaN"

definition exact_ops :: "fval float_ops" where
  "exact_ops =
     \<lparr>f_const = Num, f_of_size = (\<lambda>n. Num (real n)), f_neg = fneg, f_add = fadd,
      f_sub = fsub, f_mul = fmul, f_div = fdiv, f_less = flt, f_log10 = flog10,
      f_pow = fpow\<rparr>"

definition float_buffer :: "AudioBuffer \<Rightarrow> fval FloatBuffer" where
  "float_buffer b = \<lparr>fb_channels = channels' b, fb_samples = samples' b, fb_data = data' b\<rparr>"

section \<open>Auxiliary and specification-side definitions\<close>

text \<open>
  The cascade as a recursion over its sections, each paired with its state: the block goes
  through the sections in order and the new states are collected. \<open>Equalizer_process\<close>
  computes this on a well-formed equalizer (lemma \<open>Equalizer_process_cascade\<close>).
\<close>

fun cascade :: "(BiquadCoeffs \<times> BiquadState) list \<Rightarrow> real list \<Rightarrow> BiquadState list \<times> real list" where
  "cascade [] block = ([], block)"
| "cascade ((c, s) # sections) block =
     (let (s1, block1) = biquad_run c s block;
          (ss, block2) = cascade sections block1
      in (s1 # ss, block2))"

text \<open>
  A one-channel buffer holding the given finite samples: what \<open>AudioBuffer(1, N)\<close> is
  after a caller has written the samples through \<open>getChannelData(0)\<close>.
\<close>

definition mono :: "real list \<Rightarrow> AudioBuffer" where
  "mono xs = \<lparr>channels' = 1, samples' = length xs, data' = [map Num xs]\<rparr>"

text \<open>A buffer without NaN, and its samples in storage order as real numbers.\<close>

fun is_num :: "fval \<Rightarrow> bool" where
  "is_num (Num a) = True"
| "is_num NaN = False"

fun num_of :: "fval \<Rightarrow> real" where
  "num_of (Num a) = a"
| "num_of NaN = 0"

definition finite_buffer :: "AudioBuffer \<Rightarrow> bool" where
  "finite_buffer b \<longleftrightarrow> list_all (list_all is_num) (data' b)"

definition real_samples :: "AudioBuffer \<Rightarrow> real list" where
  "real_samples b = map num_of (concat (data' b))"

text \<open>The mean of \<open>x\<^sup>2\<close> over a list of samples.\<close>

definition mean_square :: "real list \<Rightarrow> real" where
  "mean_square xs = sum_list (map (\<lambda>x. x\<^sup>2) xs) / real (length xs)"

text \<open>
  The loudness as the specification words it (section 4.5): the mean square floored at
  \<open>1e-10\<close>; and the per-track gain of section 4.6 computed from it.
\<close>

definition spec_loudness :: "real list \<Rightarrow> real" where
  "spec_loudness xs = - 0.691 + 10 * log 10 (max (mean_square xs) (1 / 10 ^ 10))"

definition spec_gain :: "real \<Rightarrow> real \<Rightarrow> real list \<Rightarrow> real" where
  "spec_gain target_lufs max_gain_reduction xs =
     10 powr (max (target_lufs - spec_loudness xs) (- max_gain_reduction) / 20)"

text \<open>
  The loudness as \<open>measureLUFS\<close> computes it on a non-empty finite buffer: \<open>1e-10\<close> is
  added to the mean square.
\<close>

definition code_loudness :: "real list \<Rightarrow> real" where
  "code_loudness xs = - 0.691 + 10 * log 10 (mean_square xs + 1 / 10 ^ 10)"

text \<open>
  The equal-power pan law of the specification (section 4.6, render step 3d) for a mono
  source at position \<open>p\<close>.
\<close>

definition spec_pan_left :: "real \<Rightarrow> real \<Rightarrow> real" where
  "spec_pan_left p x = x * cos ((p + 1) * pi / 4)"

definition spec_pan_right :: "real \<Rightarrow> real \<Rightarrow> real" where
  "spec_pan_right p x = x * sin ((p + 1) * pi / 4)"

text \<open>
  The mix-bus compression of the specification (render step 4): the planned compressor
  run over one output channel, from a fresh envelope.
\<close>

definition spec_bus_compress :: "CompressorSettings \<Rightarrow> real list \<Rightarrow> real list" where
  "spec_bus_compress plan plane = snd (Compressor_process (Compressor plan) plane)"

text \<open>
  The level-balancing formula in the words of the specification (sections 4.5 and 4.6),
  with the \<open>1e-10\<close> added to the mean square as the source does, over an arbitrary float
  arithmetic: the mean of \<open>x\<^sup>2\<close> over the samples (the squares summed in the order
  given, the sum divided by the count), the loudness of that mean square, and the linear
  gain for a target and a maximal gain reduction.
\<close>

definition mean_square_f :: "'f float_ops \<Rightarrow> 'f list \<Rightarrow> 'f" where
  "mean_square_f ops xs =
     f_div ops (foldl (f_add ops) (f_const ops 0) (map (\<lambda>x. f_mul ops x x) xs))
       (f_of_size ops (length xs))"

definition loudness_f :: "'f float_ops \<Rightarrow> 'f list \<Rightarrow> 'f" where
  "loudness_f ops xs =
     f_add ops (f_neg ops (f_const ops 0.691))
       (f_mul ops (f_const ops 10)
          (f_log10 ops (f_add ops (mean_square_f ops xs) (f_const ops (1 / 10 ^ 10)))))"

definition gain_f :: "'f float_ops \<Rightarrow> 'f \<Rightarrow> 'f \<Rightarrow> 'f list \<Rightarrow> 'f" where
  "gain_f ops target_lufs max_gain_reduction xs =
     f_pow ops (f_const ops 10)
       (f_div ops
          (f_max ops (f_sub ops target_lufs (loudness_f ops xs)) (f_neg ops max_gain_reduction))
          (f_const ops 20))"

text \<open>A real number that the rounding leaves as it is.\<close>

definition representable :: "rounding \<Rightarrow> real \<Rightarrow> bool" where
  "representable rnd x \<longleftrightarrow> rnd x = Num x"

text \<open>
  The band ranges the specification asks for (section 4.2, Stability): \<open>Q \<ge> 1e-3\<close> and
  \<open>f\<close> in the open interval \<open>(0, fs/2)\<close>.
\<close>

definition spec_band_valid :: "EQBand \<Rightarrow> real \<Rightarrow> bool" where
  "spec_band_valid band sampleRate \<longleftrightarrow>
     1 / 1000 \<le> q band \<and> 0 < frequency band \<and> frequency band < sampleRate / 2"

section \<open>Properties of the compressor's static curve\<close>

text \<open>
  C5. For a ratio \<open>R \<ge> 1\<close> and a knee width \<open>W \<ge> 0\<close>, \<open>computeGain\<close> is the
  soft-knee curve: with \<open>level_db = 20 log10 (max env 1e-10)\<close>, the gain reduction is 0
  up to \<open>T - W/2\<close>, \<open>(level_db - T)(1 - 1/R)\<close> from \<open>T + W/2\<close> on, and that value times
  \<open>t\<^sup>2\<close> with \<open>t = (level_db - (T - W/2))/W\<close> in between; the result is
  \<open>10^((-gr_db + makeupGain)/20)\<close>. (The source tests with strict comparisons; the two
  readings agree on both boundaries.)
\<close>

theorem computeGain_soft_knee:
  assumes "1 \<le> ratio (settings' c)" and "0 \<le> knee (settings' c)"
  shows "computeGain c env =
    (let T = threshold (settings' c); W = knee (settings' c); R = ratio (settings' c);
         level_db = 20 * log 10 (max env (1 / 10 ^ 10));
         gr_db = (if level_db \<le> T - W / 2 then 0
                  else if level_db \<ge> T + W / 2 then (level_db - T) * (1 - 1 / R)
                  else (level_db - T) * (1 - 1 / R) * ((level_db - (T - W / 2)) / W)\<^sup>2)
     in 10 powr ((- gr_db + makeupGain (settings' c)) / 20))"
proof -
  define T where "T = threshold (settings' c)"
  define W where "W = knee (settings' c)"
  define R where "R = ratio (settings' c)"
  define L where "L = 20 * log 10 (max env (1 / 10 ^ 10))"
  have W0: "0 \<le> W" using assms by (simp add: W_def)
  consider (lo) "L \<le> T - W / 2" | (mid) "T - W / 2 < L" "L < T + W / 2"
    | (edge) "L = T + W / 2" "0 < W" | (hi) "T + W / 2 < L"
    using W0 by fastforce
  then have "(if L > T + W / 2 then (L - T) * (1 - 1 / R)
          else if L > T - W / 2 then (L - T) * (1 - 1 / R) * ((L - (T - W / 2)) / W) * ((L - (T - W / 2)) / W)
          else 0) =
         (if L \<le> T - W / 2 then 0
                  else if L \<ge> T + W / 2 then (L - T) * (1 - 1 / R)
                  else (L - T) * (1 - 1 / R) * ((L - (T - W / 2)) / W)\<^sup>2)"
  proof cases
    case lo then show ?thesis using W0 by auto
  next
    case mid then show ?thesis by (simp add: power2_eq_square)
  next
    case edge then show ?thesis by simp
  next
    case hi then show ?thesis using W0 by auto
  qed
  then show ?thesis
    unfolding computeGain_def Let_def T_def W_def R_def L_def by simp
qed

theorem computeGain_soft_knee_witness:
  "1 \<le> ratio (settings' (Compressor CompressorSettings)) \<and>
   0 \<le> knee (settings' (Compressor CompressorSettings)) \<and>
   computeGain (Compressor CompressorSettings) 1 = 10 powr (- 9 / 20)"
  using computeGain_soft_knee [of "Compressor CompressorSettings" 1]
  by (simp add: Compressor_def CompressorSettings_def Compressor_updateCoefficients_def)

section \<open>Properties of the spectrum analyzer's bin functions\<close>

text \<open>
  C9, as the claim states it, fails: the bin of a frequency is not the nearest integer to
  \<open>hz M / fs\<close>. At \<open>M = 2048\<close>, \<open>hz = 7\<close>, \<open>fs = 8192\<close> the product 14336 and the
  quotient 1.75 are floats, so no operation rounds; the cast gives bin 1, rounding to the
  nearest integer gives 2.
\<close>

theorem getFrequencyBin_round_counterexample:
  "getFrequencyBin exact (SpectrumAnalyzer 2048) 7 8192 = Some 1 \<and>
   round (7 * real 2048 / 8192 :: real) = 2"
proof -
  have fl: "\<lfloor>(7::real) / 4\<rfloor> = 1" by (simp add: floor_eq_iff)
  have rd: "round ((7::real) / 4) = 2" by (simp add: round_def floor_eq_iff)
  show ?thesis
    by (simp add: getFrequencyBin_def float_to_size_t_def SpectrumAnalyzer_def exact_def
        size_to_float_def fl rd)
qed

lemma float_to_size_t_floor:
  assumes "0 \<le> v" and "v < 2 ^ 64"
  shows "float_to_size_t v = Some (nat \<lfloor>v\<rfloor>)"
proof -
  have "\<not> v < 0" "- 1 < v" using assms by simp_all
  then show ?thesis using assms(2) by (simp add: float_to_size_t_def)
qed

text \<open>
  C9, amended, for every rounding of the float operations. Let \<open>q\<close> be the float that
  \<open>frequency * fftSize_ / sampleRate\<close> evaluates to (the rounded quotient of the rounded
  product). Whenever \<open>q\<close> is finite with \<open>0 \<le> q < 2\<^sup>6\<^sup>4\<close>, \<open>getFrequencyBin\<close> returns the
  integer part of \<open>q\<close>: the bin \<open>b\<close> with \<open>b \<le> q < b + 1\<close>, never the next one up. When
  \<open>hz \<ge> 0\<close>, \<open>fs > 0\<close> and \<open>M\<close>, \<open>hz M\<close> and \<open>hz M / fs\<close> are representable (so that nothing
  is rounded), that is \<open>\<lfloor>hz M / fs\<rfloor>\<close>. For \<open>M > 0\<close>, \<open>getBinFrequency\<close> is \<open>bin fs / M\<close>
  when \<open>bin\<close>, \<open>M\<close>, \<open>bin fs\<close> and \<open>bin fs / M\<close> are representable.
\<close>

theorem getFrequencyBin_truncates:
  "(\<forall>v. fdiv_r rnd (fmul_r rnd (Num hz) (size_to_float rnd (fftSize' sa))) (Num fs) = Num v \<and>
        0 \<le> v \<and> v < 2 ^ 64 \<longrightarrow>
        getFrequencyBin rnd sa hz fs = Some (nat \<lfloor>v\<rfloor>) \<and>
        real (nat \<lfloor>v\<rfloor>) \<le> v \<and> v < real (nat \<lfloor>v\<rfloor>) + 1) \<and>
   (0 \<le> hz \<and> 0 < fs \<and> hz * real (fftSize' sa) / fs < 2 ^ 64 \<and>
    representable rnd (real (fftSize' sa)) \<and>
    representable rnd (hz * real (fftSize' sa)) \<and>
    representable rnd (hz * real (fftSize' sa) / fs) \<longrightarrow>
      getFrequencyBin rnd sa hz fs = Some (nat \<lfloor>hz * real (fftSize' sa) / fs\<rfloor>)) \<and>
   (0 < fftSize' sa \<and>
    representable rnd (real bin) \<and> representable rnd (real (fftSize' sa)) \<and>
    representable rnd (real bin * fs) \<and>
    representable rnd (real bin * fs / real (fftSize' sa)) \<longrightarrow>
      getBinFrequency rnd sa bin fs = Num (real bin * fs / real (fftSize' sa)))"
proof -
  let ?M = "fftSize' sa"
  let ?Q = "fdiv_r rnd (fmul_r rnd (Num hz) (size_to_float rnd ?M)) (Num fs)"
  have A: "getFrequencyBin rnd sa hz fs = Some (nat \<lfloor>v\<rfloor>) \<and>
        real (nat \<lfloor>v\<rfloor>) \<le> v \<and> v < real (nat \<lfloor>v\<rfloor>) + 1"
    if h: "?Q = Num v" "0 \<le> v" "v < 2 ^ 64" for v
  proof -
    have g: "getFrequencyBin rnd sa hz fs = Some (nat \<lfloor>v\<rfloor>)"
      by (simp add: getFrequencyBin_def h(1) float_to_size_t_floor [OF h(2,3)])
    have fl0: "0 \<le> \<lfloor>v\<rfloor>" using h(2) by simp
    have r: "real (nat \<lfloor>v\<rfloor>) = of_int \<lfloor>v\<rfloor>" using fl0 by simp
    have "of_int \<lfloor>v\<rfloor> \<le> v" "v < of_int \<lfloor>v\<rfloor> + 1" by linarith+
    then show ?thesis using g r by simp
  qed
  have B: "getFrequencyBin rnd sa hz fs = Some (nat \<lfloor>hz * real ?M / fs\<rfloor>)"
    if h: "0 \<le> hz" "0 < fs" "hz * real ?M / fs < 2 ^ 64"
      "representable rnd (real ?M)" "representable rnd (hz * real ?M)"
      "representable rnd (hz * real ?M / fs)"
  proof -
    have q: "?Q = Num (hz * real ?M / fs)"
      using h(2,4,5,6) by (simp add: size_to_float_def representable_def)
    have "0 \<le> hz * real ?M / fs" using h(1,2) by simp
    from A [OF q this h(3)] show ?thesis by simp
  qed
  have C: "getBinFrequency rnd sa bin fs = Num (real bin * fs / real ?M)"
    if h: "0 < ?M" "representable rnd (real bin)" "representable rnd (real ?M)"
      "representable rnd (real bin * fs)" "representable rnd (real bin * fs / real ?M)"
    using h by (simp add: getBinFrequency_def size_to_float_def representable_def)
  show ?thesis using A B C by blast
qed

theorem getFrequencyBin_truncates_witness:
  "fdiv_r exact (fmul_r exact (Num 7) (size_to_float exact (fftSize' (SpectrumAnalyzer 2048))))
     (Num 8192) = Num (7 / 4) \<and>
   getFrequencyBin exact (SpectrumAnalyzer 2048) 7 8192 = Some 1 \<and>
   representable exact (7 / 4) \<and>
   getBinFrequency exact (SpectrumAnalyzer 2048) 1 8192 = Num 4"
proof -
  note T = getFrequencyBin_truncates [of exact 7 "SpectrumAnalyzer 2048" 8192 1]
  have q: "fdiv_r exact (fmul_r exact (Num 7) (size_to_float exact (fftSize' (SpectrumAnalyzer 2048))))
     (Num 8192) = Num (7 / 4)"
    by (simp add: exact_def size_to_float_def SpectrumAnalyzer_def)
  have fl: "\<lfloor>(7::real) / 4\<rfloor> = 1" by (simp add: floor_eq_iff)
  have r: "representable exact x" for x by (simp add: representable_def exact_def)
  have m: "0 < fftSize' (SpectrumAnalyzer 2048)" by (simp add: SpectrumAnalyzer_def)
  have g: "getFrequencyBin exact (SpectrumAnalyzer 2048) 7 8192 = Some (nat \<lfloor>(7::real) / 4\<rfloor>)"
  proof -
    have "(0::real) \<le> 7 / 4" "(7::real) / 4 < 2 ^ 64" by simp_all
    with T q show ?thesis by blast
  qed
  have b: "getBinFrequency exact (SpectrumAnalyzer 2048) 1 8192 =
           Num (real 1 * 8192 / real (fftSize' (SpectrumAnalyzer 2048)))"
    using T r m by blast
  show ?thesis
    using q g b r [of "7 / 4"] by (simp add: fl SpectrumAnalyzer_def)
qed

section \<open>Properties of the equalizer\<close>

subsection \<open>The cascade\<close>

lemma cascade_Cons:
  "cascade (a # sections) block =
     (fst (biquad_run (fst a) (snd a) block) #
        fst (cascade sections (snd (biquad_run (fst a) (snd a) block))),
      snd (cascade sections (snd (biquad_run (fst a) (snd a) block))))"
  by (cases a) (simp add: Let_def case_prod_beta)

lemma biquad_run_append:
  "biquad_run c s (xs @ ys) =
     (let (s1, out1) = biquad_run c s xs; (s2, out2) = biquad_run c s1 ys in (s2, out1 @ out2))"
  by (induction xs arbitrary: s) (simp_all add: Let_def case_prod_beta)

lemma cascade_length: "length (fst (cascade cs block)) = length cs"
  by (induction cs arbitrary: block) (simp_all add: cascade_Cons)

lemma cascade_Nil_block: "cascade cs [] = (map snd cs, [])"
  by (induction cs) (simp_all add: cascade_Cons)

lemma cascade_sections_append:
  "cascade (as @ bs) block =
     (let (ss1, block1) = cascade as block; (ss2, block2) = cascade bs block1
      in (ss1 @ ss2, block2))"
  by (induction as arbitrary: block) (simp_all add: cascade_Cons Let_def case_prod_beta)

lemma cascade_block_append:
  "cascade cs (xs @ ys) =
     (let (ss1, out1) = cascade cs xs; (ss2, out2) = cascade (zip (map fst cs) ss1) ys
      in (ss2, out1 @ out2))"
proof (induction cs arbitrary: xs ys)
  case Nil
  then show ?case by simp
next
  case (Cons a cs)
  obtain c s where a: "a = (c, s)" by (cases a)
  show ?case
    by (simp add: a biquad_run_append Cons.IH Let_def case_prod_beta)
qed

lemma process_prefix:
  assumes "equalizer_wf e" and "k \<le> length (bands' e)"
  shows "foldl (\<lambda>(e, block) band.
              let (s, block1) = biquad_run (coeffs' e ! band) (states' e ! band) block
              in (e\<lparr>states' := (states' e)[band := s]\<rparr>, block1))
           (e, block) [0..<k] =
         (e\<lparr>states' := fst (cascade (take k (zip (coeffs' e) (states' e))) block) @ drop k (states' e)\<rparr>,
          snd (cascade (take k (zip (coeffs' e) (states' e))) block))"
  using assms(2)
proof (induction k)
  case 0
  then show ?case by simp
next
  case (Suc k)
  let ?z = "zip (coeffs' e) (states' e)"
  have k: "k < length (bands' e)" using Suc.prems by simp
  have lz: "k < length ?z" using k assms(1) by (simp add: equalizer_wf_def)
  have tk: "take (Suc k) ?z = take k ?z @ [(coeffs' e ! k, states' e ! k)]"
    using lz by (simp add: take_Suc_conv_app_nth)
  have len: "length (fst (cascade (take k ?z) block)) = k"
    using lz by (simp add: cascade_length)
  have ks: "k < length (states' e)" using k assms(1) by (simp add: equalizer_wf_def)
  have dr: "drop k (states' e) = states' e ! k # drop (Suc k) (states' e)"
    using ks by (simp add: Cons_nth_drop_Suc)
  show ?case
    using Suc.IH k len
    by (simp add: tk cascade_sections_append Let_def dr nth_append list_update_append
        case_prod_beta)
qed

lemma Equalizer_process_cascade:
  assumes "equalizer_wf e"
  shows "Equalizer_process e block =
         (e\<lparr>states' := fst (cascade (zip (coeffs' e) (states' e)) block)\<rparr>,
          snd (cascade (zip (coeffs' e) (states' e)) block))"
proof -
  have "length (zip (coeffs' e) (states' e)) = length (bands' e)"
    using assms by (simp add: equalizer_wf_def)
  then show ?thesis
    unfolding Equalizer_process_def
    using process_prefix [OF assms order_refl, of block] assms
    by (simp add: equalizer_wf_def)
qed

lemma Equalizer_process_wf:
  assumes "equalizer_wf e"
  shows "equalizer_wf (fst (Equalizer_process e block))"
  using assms by (simp add: Equalizer_process_cascade equalizer_wf_def cascade_length)

lemma Equalizer_process_append:
  assumes "equalizer_wf e"
  shows "Equalizer_process e (xs @ ys) =
     (let (e1, out1) = Equalizer_process e xs; (e2, out2) = Equalizer_process e1 ys
      in (e2, out1 @ out2))"
proof -
  let ?z = "zip (coeffs' e) (states' e)"
  have wf1: "equalizer_wf (e\<lparr>states' := fst (cascade ?z xs)\<rparr>)"
    using assms by (simp add: equalizer_wf_def cascade_length)
  have m: "map fst ?z = coeffs' e" using assms by (simp add: equalizer_wf_def)
  show ?thesis
    by (simp add: Equalizer_process_cascade [OF assms] Equalizer_process_cascade [OF wf1]
        cascade_block_append m Let_def case_prod_beta)
qed

subsection \<open>setBand\<close>

lemma Equalizer_wf: "equalizer_wf Equalizer"
  by (simp add: Equalizer_def equalizer_wf_def)

lemma updateCoefficients_prefix:
  assumes "length (coeffs' e) = length (bands' e)" and "k \<le> length (bands' e)"
  shows "foldl (\<lambda>e i. e\<lparr>coeffs' := (coeffs' e)[i := calculateCoeffs (bands' e ! i) sr]\<rparr>)
           e [0..<k] =
         e\<lparr>coeffs' := map (\<lambda>band. calculateCoeffs band sr) (take k (bands' e)) @ drop k (coeffs' e)\<rparr>"
  using assms(2)
proof (induction k)
  case 0
  then show ?case by simp
next
  case (Suc k)
  have k: "k < length (bands' e)" using Suc.prems by simp
  have kc: "k < length (coeffs' e)" using k assms(1) by simp
  have dr: "drop k (coeffs' e) = coeffs' e ! k # drop (Suc k) (coeffs' e)"
    using kc by (simp add: Cons_nth_drop_Suc)
  have len: "length (map (\<lambda>band. calculateCoeffs band sr) (take k (bands' e))) = k"
    using k by simp
  show ?case
    using Suc.IH k
    by (simp add: take_Suc_conv_app_nth dr list_update_append len del: length_map)
qed

lemma Equalizer_updateCoefficients_map:
  assumes "length (coeffs' e) = length (bands' e)"
  shows "Equalizer_updateCoefficients sr e =
         e\<lparr>coeffs' := map (\<lambda>band. calculateCoeffs band sr) (bands' e)\<rparr>"
  unfolding Equalizer_updateCoefficients_def
  using updateCoefficients_prefix [OF assms order_refl, of sr] assms by simp

lemma resize_length: "length (resize n d xs) = n"
  by (simp add: resize_def)

lemma setBand_bands:
  "bands' (setBand i band e) =
     (if length (bands' e) \<le> i then resize (i + 1) EQBand (bands' e) else bands' e)[i := band]"
proof -
  have inv: "bands' (foldl (\<lambda>e i. e\<lparr>coeffs' := (coeffs' e)[i := calculateCoeffs (bands' e ! i) sr]\<rparr>) e0 ns)
      = bands' e0" for e0 ns sr
    by (induction ns arbitrary: e0) simp_all
  show ?thesis
    by (simp add: setBand_def Let_def Equalizer_updateCoefficients_def inv)
qed

lemma setBand_states:
  "states' (setBand i band e) =
     (if length (bands' e) \<le> i then resize (i + 1) BiquadState (states' e) else states' e)"
proof -
  have inv: "states' (foldl (\<lambda>e i. e\<lparr>coeffs' := (coeffs' e)[i := calculateCoeffs (bands' e ! i) sr]\<rparr>) e0 ns)
      = states' e0" for e0 ns sr
    by (induction ns arbitrary: e0) simp_all
  show ?thesis
    by (simp add: setBand_def Let_def Equalizer_updateCoefficients_def inv)
qed

lemma setBand_coeffs:
  assumes "equalizer_wf e"
  shows "coeffs' (setBand i band e) =
           map (\<lambda>band. calculateCoeffs band 48000) (bands' (setBand i band e))"
proof -
  define e1 where "e1 c = (if c then e\<lparr>bands' := resize (i + 1) EQBand (bands' e),
                       coeffs' := resize (i + 1) BiquadCoeffs (coeffs' e),
                       states' := resize (i + 1) BiquadState (states' e)\<rparr>
                else e)" for c
  have l1: "length (coeffs' (e1 c)) = length (bands' (e1 c))" for c
    using assms by (simp add: e1_def equalizer_wf_def resize_length)
  have l2: "length (coeffs' ((e1 c)\<lparr>bands' := (bands' (e1 c))[i := band]\<rparr>)) =
            length (bands' ((e1 c)\<lparr>bands' := (bands' (e1 c))[i := band]\<rparr>))" for c
    using l1 by simp
  have sb: "setBand i band e =
      Equalizer_updateCoefficients 48000
        ((e1 (length (bands' e) \<le> i))\<lparr>bands' := (bands' (e1 (length (bands' e) \<le> i)))[i := band]\<rparr>)"
    by (simp add: setBand_def Let_def e1_def)
  show ?thesis
    unfolding sb Equalizer_updateCoefficients_map [OF l2] by simp
qed

lemma setBand_wf:
  assumes "equalizer_wf e"
  shows "equalizer_wf (setBand i band e)"
  using assms
  by (simp add: equalizer_wf_def setBand_coeffs [OF assms] setBand_states setBand_bands resize_length)

lemma setBand_Equalizer:
  "setBand i band Equalizer =
     \<lparr>bands' = (replicate (i + 1) EQBand)[i := band],
      coeffs' = map (\<lambda>band. calculateCoeffs band 48000) ((replicate (i + 1) EQBand)[i := band]),
      states' = replicate (i + 1) BiquadState\<rparr>"
proof -
  have b: "bands' (setBand i band Equalizer) = (replicate (i + 1) EQBand)[i := band]"
    unfolding setBand_bands by (simp add: Equalizer_def resize_def)
  have s: "states' (setBand i band Equalizer) = replicate (i + 1) BiquadState"
    unfolding setBand_states by (simp add: Equalizer_def resize_def)
  have c: "coeffs' (setBand i band Equalizer) =
      map (\<lambda>band. calculateCoeffs band 48000) ((replicate (i + 1) EQBand)[i := band])"
    unfolding setBand_coeffs [OF Equalizer_wf] b ..
  show ?thesis
    by (rule Equalizer.equality) (simp_all add: b s c)
qed

lemma process_one_sample:
  "Equalizer_process \<lparr>bands' = [band], coeffs' = [c], states' = [s]\<rparr> [x] =
     (\<lparr>bands' = [band], coeffs' = [c],
       states' = [\<lparr>x1 = x, x2 = x1 s,
                   y1 = a0 c * x + a1 c * x1 s + a2 c * x2 s - b1 c * y1 s - b2 c * y2 s,
                   y2 = y1 s\<rparr>]\<rparr>,
      [a0 c * x + a1 c * x1 s + a2 c * x2 s - b1 c * y1 s - b2 c * y2 s])"
  by (simp add: Equalizer_process_def Let_def)

subsection \<open>State continuity across calls\<close>

text \<open>
  C7. For every equalizer (any bands, coefficients and states, the three vectors of one
  length) and every sample sequence cut into contiguous chunks, processing the chunks by
  successive calls of \<open>process\<close> gives the same output samples, and leaves the same
  equalizer, as one call on the whole sequence: each section's \<open>x1, x2, y1, y2\<close> is
  carried from call to call.
\<close>

theorem process_chunks_eq_whole:
  assumes "equalizer_wf e"
  shows "process_chunks e chunks = Equalizer_process e (concat chunks)"
  using assms
proof (induction chunks arbitrary: e)
  case Nil
  then show ?case
    by (simp add: Equalizer_process_cascade cascade_Nil_block equalizer_wf_def)
next
  case (Cons chunk chunks)
  have wf1: "equalizer_wf (fst (Equalizer_process e chunk))"
    using Cons.prems by (rule Equalizer_process_wf)
  show ?case
    using Cons.IH [OF wf1]
    by (simp add: Equalizer_process_append [OF Cons.prems] Let_def case_prod_beta)
qed

theorem process_chunks_eq_whole_witness:
  "equalizer_wf (setBand 0 EQBand Equalizer) \<and>
   process_chunks (setBand 0 EQBand Equalizer) [[1, 2], [], [3]] =
     Equalizer_process (setBand 0 EQBand Equalizer) [1, 2, 3]"
  using process_chunks_eq_whole [of "setBand 0 EQBand Equalizer" "[[1, 2], [], [3]]"]
    setBand_wf [OF Equalizer_wf, of 0 EQBand]
  by simp

subsection \<open>What setBand does to the filter states\<close>

text \<open>
  C6, as the claim states it, fails: \<open>setBand\<close> does not reset the state of section
  \<open>i\<close>. After one sample 1 has gone through a one-band equalizer, section 0 holds
  \<open>x1 = 1\<close>; setting band 0 again leaves that state as it is.
\<close>

theorem setBand_keeps_state_counterexample:
  "x1 (states' (setBand 0 EQBand (fst (Equalizer_process (setBand 0 EQBand Equalizer) [1]))) ! 0) = 1 \<and>
   states' (setBand 0 EQBand (fst (Equalizer_process (setBand 0 EQBand Equalizer) [1]))) ! 0
     \<noteq> BiquadState"
proof -
  have s1: "x1 (states' (setBand 0 EQBand (fst (Equalizer_process (setBand 0 EQBand Equalizer) [1]))) ! 0) = 1"
    by (simp add: setBand_Equalizer process_one_sample setBand_states)
  then show ?thesis by (auto simp: BiquadState_def)
qed

text \<open>
  C6, amended. \<open>setBand i band\<close> grows the three vectors to \<open>i + 1\<close> entries when they
  are shorter (and never shrinks them), stores the band at index \<open>i\<close>, recomputes every
  section's coefficients from its band, and leaves the state of every existing section
  unchanged, that of section \<open>i\<close> included; only sections created by the resize have the
  zero state.
\<close>

theorem setBand_frame:
  assumes "equalizer_wf e"
  shows "length (bands' (setBand i band e)) = max (length (bands' e)) (i + 1) \<and>
         length (coeffs' (setBand i band e)) = max (length (bands' e)) (i + 1) \<and>
         length (states' (setBand i band e)) = max (length (bands' e)) (i + 1) \<and>
         bands' (setBand i band e) ! i = band \<and>
         coeffs' (setBand i band e) =
           map (\<lambda>band. calculateCoeffs band 48000) (bands' (setBand i band e)) \<and>
         states' (setBand i band e) =
           states' e @ replicate (i + 1 - length (states' e)) BiquadState"
proof -
  have ls: "length (states' e) = length (bands' e)"
    using assms by (simp add: equalizer_wf_def)
  have lb: "length (bands' (setBand i band e)) = max (length (bands' e)) (i + 1)"
    by (simp add: setBand_bands resize_length max_def)
  have wf: "equalizer_wf (setBand i band e)" by (rule setBand_wf [OF assms])
  have bi: "bands' (setBand i band e) ! i = band"
    by (simp add: setBand_bands resize_length)
  have st: "states' (setBand i band e) =
           states' e @ replicate (i + 1 - length (states' e)) BiquadState"
    by (simp add: setBand_states ls resize_def)
  show ?thesis
    using lb wf bi st setBand_coeffs [OF assms, of i band]
    by (simp add: equalizer_wf_def)
qed

theorem setBand_frame_witness:
  "equalizer_wf (fst (Equalizer_process (setBand 0 EQBand Equalizer) [1])) \<and>
   states' (setBand 0 EQBand (fst (Equalizer_process (setBand 0 EQBand Equalizer) [1]))) =
     states' (fst (Equalizer_process (setBand 0 EQBand Equalizer) [1])) \<and>
   states' (setBand 1 EQBand (setBand 0 EQBand Equalizer)) = [BiquadState, BiquadState]"
proof -
  let ?e = "setBand 0 EQBand Equalizer"
  have wf: "equalizer_wf ?e" by (rule setBand_wf [OF Equalizer_wf])
  have wf1: "equalizer_wf (fst (Equalizer_process ?e [1]))"
    by (rule Equalizer_process_wf [OF wf])
  have l: "length (states' (fst (Equalizer_process ?e [1]))) = 1"
    by (simp add: setBand_Equalizer process_one_sample)
  have st: "states' ?e = [BiquadState]"
    by (simp add: setBand_Equalizer)
  show ?thesis
    using setBand_frame [OF wf1, of 0 EQBand] setBand_frame [OF wf, of 1 EQBand] wf1 l st
    by (simp add: numeral_2_eq_2)
qed

subsection \<open>Bands outside the specified ranges\<close>

text \<open>
  C8, as the claim states it, fails: no band is rejected. A band at \<open>f = fs = 48000\<close>
  (outside \<open>(0, fs/2)\<close>) and a band with \<open>Q = 0.0005\<close> (below \<open>1e-3\<close>) are both stored
  and turned into filter coefficients.
\<close>

theorem setBand_rejects_nothing_counterexample:
  "\<not> spec_band_valid (EQBand\<lparr>frequency := 48000\<rparr>) 48000 \<and>
   bands' (setBand 0 (EQBand\<lparr>frequency := 48000\<rparr>) Equalizer) = [EQBand\<lparr>frequency := 48000\<rparr>] \<and>
   coeffs' (setBand 0 (EQBand\<lparr>frequency := 48000\<rparr>) Equalizer) =
     [\<lparr>a0 = 1, a1 = - 2, a2 = 1, b1 = - 2, b2 = 1\<rparr>] \<and>
   \<not> spec_band_valid (EQBand\<lparr>q := 1 / 2000\<rparr>) 48000 \<and>
   bands' (setBand 0 (EQBand\<lparr>q := 1 / 2000\<rparr>) Equalizer) = [EQBand\<lparr>q := 1 / 2000\<rparr>] \<and>
   coeffs' (setBand 0 (EQBand\<lparr>q := 1 / 2000\<rparr>) Equalizer) =
     [calculateCoeffs (EQBand\<lparr>q := 1 / 2000\<rparr>) 48000]"
proof -
  have c: "calculateCoeffs (EQBand\<lparr>frequency := 48000\<rparr>) 48000 =
      \<lparr>a0 = 1, a1 = - 2, a2 = 1, b1 = - 2, b2 = 1\<rparr>"
    by (simp add: calculateCoeffs_def EQBand_def)
  show ?thesis
    by (simp add: setBand_Equalizer c spec_band_valid_def)
qed

text \<open>
  C8, amended. \<open>setBand\<close> has no error result: for every index and every band, in the
  specified ranges or not, the band is stored at that index, the section's coefficients
  are those \<open>calculateCoeffs\<close> derives from it at 48 kHz, and the equalizer stays
  well-formed.
\<close>

theorem setBand_accepts_every_band:
  assumes "equalizer_wf e"
  shows "bands' (setBand i band e) ! i = band \<and>
         coeffs' (setBand i band e) ! i = calculateCoeffs band 48000 \<and>
         equalizer_wf (setBand i band e)"
proof -
  have bi: "bands' (setBand i band e) ! i = band"
    by (simp add: setBand_bands resize_length)
  have li: "i < length (bands' (setBand i band e))"
    by (simp add: setBand_bands resize_length)
  show ?thesis
    using bi li setBand_wf [OF assms, of i band]
    by (simp add: setBand_coeffs [OF assms])
qed

theorem setBand_accepts_every_band_witness:
  "equalizer_wf Equalizer \<and>
   \<not> spec_band_valid (EQBand\<lparr>frequency := 48000\<rparr>) 48000 \<and>
   bands' (setBand 2 (EQBand\<lparr>frequency := 48000\<rparr>) Equalizer) ! 2 = EQBand\<lparr>frequency := 48000\<rparr> \<and>
   coeffs' (setBand 2 (EQBand\<lparr>frequency := 48000\<rparr>) Equalizer) ! 2 =
     \<lparr>a0 = 1, a1 = - 2, a2 = 1, b1 = - 2, b2 = 1\<rparr>"
proof -
  have c: "calculateCoeffs (EQBand\<lparr>frequency := 48000\<rparr>) 48000 =
      \<lparr>a0 = 1, a1 = - 2, a2 = 1, b1 = - 2, b2 = 1\<rparr>"
    by (simp add: calculateCoeffs_def EQBand_def)
  have v: "\<not> spec_band_valid (EQBand\<lparr>frequency := 48000\<rparr>) 48000"
    by (simp add: spec_band_valid_def EQBand_def)
  show ?thesis
    using setBand_accepts_every_band [OF Equalizer_wf, of 2 "EQBand\<lparr>frequency := 48000\<rparr>"]
      Equalizer_wf v
    by (simp add: c)
qed

section \<open>Properties of the sample buffer and of the track loop\<close>

lemma fmul_one: "fmul x (Num 1) = x"
  by (cases x) simp_all

lemma fmax_Num: "fmax (Num a) (Num b) = Num (max a b)"
  by (simp add: fmax_def max_def)

lemma AudioBuffer_wf: "buffer_wf (AudioBuffer c n)"
  by (simp add: buffer_wf_def AudioBuffer_def list_all_iff)

lemma mono_wf: "buffer_wf (mono xs)"
  by (simp add: buffer_wf_def mono_def)

lemma add_plane_length: "length (add_plane k g dst src) = length dst"
  by (simp add: add_plane_def)

lemma add_plane_nth:
  "n < length dst \<Longrightarrow>
   add_plane k g dst src ! n = (if n < k then fadd (dst ! n) (fmul (src ! n) g) else dst ! n)"
  by (simp add: add_plane_def)

lemma addFrom_fields:
  "channels' (addFrom other g self) = channels' self"
  "samples' (addFrom other g self) = samples' self"
  "length (data' (addFrom other g self)) = length (data' self)"
  by (simp_all add: addFrom_def Let_def)

lemma addFrom_plane:
  "ch < length (data' self) \<Longrightarrow>
   data' (addFrom other g self) ! ch =
     (if ch < min (channels' self) (channels' other)
      then add_plane (min (samples' self) (samples' other)) g (data' self ! ch) (data' other ! ch)
      else data' self ! ch)"
  by (simp add: addFrom_def Let_def)

lemma addFrom_wf:
  assumes "buffer_wf self"
  shows "buffer_wf (addFrom other g self)"
proof -
  have "length (data' (addFrom other g self) ! ch) = samples' self"
    if "ch < length (data' self)" for ch
    using that assms
    by (simp add: addFrom_plane add_plane_length buffer_wf_def list_all_length)
  then show ?thesis
    using assms by (simp add: buffer_wf_def list_all_length addFrom_fields)
qed

lemma mix_track_eq:
  "mix_track m P tracks bus i = addFrom (applyGain (trackGains P ! i) (tracks ! i)) (Num 1) bus"
  by (simp add: mix_track_def)

lemma mix_track_fun:
  "mix_track m P tracks =
     (\<lambda>bus i. addFrom (applyGain (trackGains P ! i) (tracks ! i)) (Num 1) bus)"
  by (simp add: fun_eq_iff mix_track_eq)

lemma applyGain_fields:
  "channels' (applyGain g b) = channels' b"
  "samples' (applyGain g b) = samples' b"
  by (simp_all add: applyGain_def)

lemma applyGain_sample:
  "buffer_wf b \<Longrightarrow> ch < channels' b \<Longrightarrow> n < samples' b \<Longrightarrow>
   data' (applyGain g b) ! ch ! n = fmul (data' b ! ch ! n) g"
  by (simp add: applyGain_def buffer_wf_def list_all_length)

lemma mix_loop_fields:
  "channels' (foldl (mix_track m P tracks) bus is) = channels' bus"
  "samples' (foldl (mix_track m P tracks) bus is) = samples' bus"
  "length (data' (foldl (mix_track m P tracks) bus is)) = length (data' bus)"
  by (induction "is" arbitrary: bus) (simp_all add: mix_track_eq addFrom_fields)

lemma mix_loop_wf:
  "buffer_wf bus \<Longrightarrow> buffer_wf (foldl (mix_track m P tracks) bus is)"
  by (induction "is" arbitrary: bus) (simp_all add: mix_track_eq addFrom_wf)

lemma mix_track_sample:
  assumes "buffer_wf bus" and "buffer_wf (tracks ! i)"
    and "ch < channels' bus" and "n < samples' bus"
  shows "data' (mix_track m P tracks bus i) ! ch ! n =
     (if ch < channels' (tracks ! i) \<and> n < samples' (tracks ! i)
      then fadd (data' bus ! ch ! n) (fmul (data' (tracks ! i) ! ch ! n) (trackGains P ! i))
      else data' bus ! ch ! n)"
proof -
  have c: "ch < length (data' bus)" using assms by (simp add: buffer_wf_def)
  have l: "n < length (data' bus ! ch)"
    using assms c by (simp add: buffer_wf_def list_all_length)
  show ?thesis
    using assms
    by (simp add: mix_track_eq addFrom_plane [OF c] add_plane_nth [OF l] applyGain_fields
        applyGain_sample fmul_one)
qed

lemma mix_loop_sample:
  assumes "buffer_wf bus" and "list_all buffer_wf tracks" and "k \<le> length tracks"
    and "ch < channels' bus" and "n < samples' bus"
  shows "data' (foldl (mix_track m P tracks) bus [0..<k]) ! ch ! n =
     foldl fadd (data' bus ! ch ! n)
       (map (\<lambda>i. fmul (data' (tracks ! i) ! ch ! n) (trackGains P ! i))
          (filter (\<lambda>i. ch < channels' (tracks ! i) \<and> n < samples' (tracks ! i)) [0..<k]))"
  using assms(3)
proof (induction k)
  case 0
  then show ?case by simp
next
  case (Suc k)
  let ?bus = "foldl (mix_track m P tracks) bus [0..<k]"
  have wfk: "buffer_wf (tracks ! k)"
    using Suc.prems assms(2) by (simp add: list_all_length)
  have wfb: "buffer_wf ?bus" by (rule mix_loop_wf [OF assms(1)])
  have ch: "ch < channels' ?bus" and n: "n < samples' ?bus"
    using assms(4,5) by (simp_all add: mix_loop_fields)
  have IH: "data' ?bus ! ch ! n =
     foldl fadd (data' bus ! ch ! n)
       (map (\<lambda>i. fmul (data' (tracks ! i) ! ch ! n) (trackGains P ! i))
          (filter (\<lambda>i. ch < channels' (tracks ! i) \<and> n < samples' (tracks ! i)) [0..<k]))"
    using Suc by simp
  show ?case
    by (simp add: mix_track_sample [OF wfb wfk ch n] IH)
qed

lemma max_loop:
  "foldl (\<lambda>n track. max n (getNumSamples track)) a tracks =
     Max (insert a (getNumSamples ` set tracks))"
proof (induction tracks arbitrary: a)
  case Nil
  then show ?case by simp
next
  case (Cons t tracks)
  have "Max (insert (max a (getNumSamples t)) (getNumSamples ` set tracks)) =
        Max (insert a (insert (getNumSamples t) (getNumSamples ` set tracks)))"
  proof (cases "set tracks = {}")
    case True
    then show ?thesis by simp
  next
    case False
    then show ?thesis by (simp add: max.assoc)
  qed
  then show ?case using Cons.IH by simp
qed

lemma max_loop_nonempty:
  assumes "tracks \<noteq> []"
  shows "foldl (\<lambda>n track. max n (getNumSamples track)) 0 tracks =
         Max (getNumSamples ` set tracks)"
proof -
  have ne: "getNumSamples ` set tracks \<noteq> {}" using assms by simp
  have "Max (insert 0 (getNumSamples ` set tracks)) = max 0 (Max (getNumSamples ` set tracks))"
    using ne by simp
  then show ?thesis by (simp add: max_loop)
qed

section \<open>Properties of the loudness measurement\<close>

lemma foldl_nth_upt:
  "foldl (\<lambda>a i. f a (xs ! i)) a [0..<length xs] = foldl f a xs"
proof -
  have "foldl f a (map (\<lambda>i. xs ! i) [0..<length xs]) = foldl f a xs"
    by (simp add: map_nth)
  then show ?thesis by (simp add: foldl_map)
qed

lemma foldl_concat_planes:
  "foldl (\<lambda>a plane. foldl f a plane) a planes = foldl f a (concat planes)"
  by (induction planes arbitrary: a) simp_all

lemma measure_loop_concat:
  assumes "buffer_wf b"
  shows "measure_loop b =
         foldl (\<lambda>(s, n) x. (fadd s (fmul x x), Suc n)) (Num 0, 0) (concat (data' b))"
proof -
  let ?g = "\<lambda>(s, n) x. (fadd s (fmul x x), Suc n)"
  have inner: "foldl (\<lambda>(s, n) i. (fadd s (fmul (data' b ! ch ! i) (data' b ! ch ! i)), Suc n))
                 acc [0..<samples' b] = foldl ?g acc (data' b ! ch)"
    if "ch < length (data' b)" for ch acc
  proof -
    have l: "length (data' b ! ch) = samples' b"
      using that assms by (simp add: buffer_wf_def list_all_length)
    have fe: "(\<lambda>(s, n) i. (fadd s (fmul (data' b ! ch ! i) (data' b ! ch ! i)), Suc n)) =
              (\<lambda>a i. ?g a ((data' b ! ch) ! i))"
      by (simp add: fun_eq_iff case_prod_beta)
    show ?thesis
      unfolding fe l [symmetric] by (rule foldl_nth_upt)
  qed
  have "measure_loop b =
        foldl (\<lambda>acc ch. foldl ?g acc (data' b ! ch)) (Num 0, 0) [0..<length (data' b)]"
    unfolding measure_loop_def getNumChannels_def getNumSamples_def
    using assms by (auto intro!: foldl_cong simp: inner buffer_wf_def)
  also have "\<dots> = foldl (\<lambda>acc plane. foldl ?g acc plane) (Num 0, 0) (data' b)"
    by (rule foldl_nth_upt)
  finally show ?thesis by (simp add: foldl_concat_planes)
qed

lemma square_loop_finite:
  "foldl (\<lambda>(s, n) x. (fadd s (fmul x x), Suc n)) (Num a, k) (map Num rs) =
     (Num (a + sum_list (map (\<lambda>x. x\<^sup>2) rs)), k + length rs)"
  by (induction rs arbitrary: a k) (simp_all add: power2_eq_square add.assoc)

lemma finite_buffer_samples:
  assumes "finite_buffer b"
  shows "concat (data' b) = map Num (real_samples b)"
proof -
  have "map Num (map num_of xs) = xs" if "list_all is_num xs" for xs
    using that
  proof (induction xs)
    case Nil
    then show ?case by simp
  next
    case (Cons x xs)
    then show ?case by (cases x) simp_all
  qed
  moreover have "list_all is_num (concat (data' b))"
    using assms by (auto simp: finite_buffer_def list_all_iff)
  ultimately show ?thesis by (simp add: real_samples_def)
qed

lemma real_samples_length:
  assumes "buffer_wf b"
  shows "length (real_samples b) = channels' b * samples' b"
proof -
  have h: "sum_list (map length planes) = length planes * k"
    if "list_all (\<lambda>plane. length plane = k) planes" for planes :: "fval list list" and k
    using that by (induction planes) simp_all
  have "list_all (\<lambda>plane. length plane = samples' b) (data' b)"
    using assms by (simp add: buffer_wf_def)
  from h [OF this] show ?thesis
    using assms by (simp add: real_samples_def length_concat buffer_wf_def)
qed

lemma measure_loop_finite:
  assumes "buffer_wf b" and "finite_buffer b"
  shows "measure_loop b =
         (Num (sum_list (map (\<lambda>x. x\<^sup>2) (real_samples b))), channels' b * samples' b)"
  using square_loop_finite [of 0 0 "real_samples b"]
  by (simp add: measure_loop_concat [OF assms(1)] finite_buffer_samples [OF assms(2)]
      real_samples_length [OF assms(1)])

lemma mean_square_nonneg: "0 \<le> mean_square xs"
  by (auto simp: mean_square_def intro!: divide_nonneg_nonneg sum_list_nonneg)

lemma measureLUFS_finite:
  assumes "buffer_wf b" and "finite_buffer b" and "0 < channels' b * samples' b"
  shows "measureLUFS b = Num (code_loudness (real_samples b))"
proof -
  have pos: "0 < mean_square (real_samples b) + 1 / 10 ^ 10"
    using mean_square_nonneg [of "real_samples b"] by (simp add: add_nonneg_pos)
  have ms: "sum_list (map (\<lambda>x. x\<^sup>2) (real_samples b)) / real (channels' b * samples' b) =
            mean_square (real_samples b)"
    by (simp add: mean_square_def real_samples_length [OF assms(1)])
  have "measureLUFS b =
        fadd (Num (- 0.691)) (fmul (Num 10)
          (flog10 (Num (mean_square (real_samples b) + 1 / 10 ^ 10))))"
    using assms(3) ms
    by (simp add: measureLUFS_def measure_loop_finite [OF assms(1,2)] del: of_nat_mult)
  then show ?thesis
    using pos by (simp add: code_loudness_def)
qed

lemma measure_loop_empty:
  assumes "channels' b = 0 \<or> samples' b = 0"
  shows "measure_loop b = (Num 0, 0)"
proof -
  have "foldl (\<lambda>acc ch. acc) a chs = a" for a :: "fval \<times> nat" and chs :: "nat list"
    by (induction chs) simp_all
  then show ?thesis
    using assms by (auto simp: measure_loop_def getNumChannels_def getNumSamples_def)
qed

lemma measureLUFS_empty:
  assumes "channels' b = 0 \<or> samples' b = 0"
  shows "measureLUFS b = NaN"
  by (simp add: measureLUFS_def measure_loop_empty [OF assms])

lemma calculateOptimalLevels_eq:
  "calculateOptimalLevels m tracks =
     map (\<lambda>track. fpow10 (fdiv (fmax (fsub (Num (targetLUFS (mixer_settings' m))) (measureLUFS track))
                                   (Num (- maxGainReduction (mixer_settings' m)))) (Num 20)))
       tracks"
  by (simp add: calculateOptimalLevels_def Let_def comp_def)

lemma trackGains_analyzeTracks:
  "trackGains (analyzeTracks m tracks) = calculateOptimalLevels m tracks"
  by (simp add: analyzeTracks_def Let_def)

lemma calculateOptimalLevels_settings:
  assumes "targetLUFS (mixer_settings' m1) = targetLUFS (mixer_settings' m2)"
    and "maxGainReduction (mixer_settings' m1) = maxGainReduction (mixer_settings' m2)"
  shows "calculateOptimalLevels m1 tracks = calculateOptimalLevels m2 tracks"
  by (simp add: calculateOptimalLevels_eq assms)

lemma measureLUFS_mono:
  assumes "xs \<noteq> []"
  shows "measureLUFS (mono xs) = Num (code_loudness xs)"
proof -
  have f: "finite_buffer (mono xs)"
    by (simp add: finite_buffer_def mono_def list_all_iff)
  have r: "real_samples (mono xs) = xs"
    by (simp add: real_samples_def mono_def comp_def)
  have p: "0 < channels' (mono xs) * samples' (mono xs)"
    using assms by (simp add: mono_def)
  show ?thesis
    using measureLUFS_finite [OF mono_wf f p] by (simp add: r)
qed

lemma log10_floor: "log 10 (1 / 10 ^ 10 :: real) = - 10"
proof -
  have "log 10 (1 / 10 ^ 10 :: real) = - log 10 (10 ^ 10)" by (rule log_recip)
  also have "log 10 ((10::real) ^ 10) = 10" by (subst log_pow_cancel) simp_all
  finally show ?thesis .
qed

lemma impulse_gain:
  assumes "targetLUFS (mixer_settings' m) = - 16"
    and "maxGainReduction (mixer_settings' m) = 12"
  shows "calculateOptimalLevels m [mono [1]] = [Num (10 powr (- 3 / 5))]"
proof -
  define l where "l = log 10 (mean_square [1] + 1 / 10 ^ 10)"
  have l0: "0 \<le> l" by (simp add: l_def mean_square_def)
  have "code_loudness [1] = - 0.691 + 10 * l"
    unfolding code_loudness_def l_def ..
  then have "- 16 - code_loudness [1] \<le> - 12"
    using l0 by simp
  then have "max (- 16 - code_loudness [1]) (- 12) = - 12" by simp
  then show ?thesis
    by (simp add: calculateOptimalLevels_eq measureLUFS_mono fmax_Num assms)
qed

subsection \<open>The loops over an arbitrary arithmetic\<close>

lemma measure_loop_f_concat:
  assumes "floatbuffer_wf b"
  shows "measure_loop_f ops b =
         foldl (\<lambda>(s, n) x. (f_add ops s (f_mul ops x x), Suc n)) (f_const ops 0, 0)
           (concat (fb_data b))"
proof -
  let ?g = "\<lambda>(s, n) x. (f_add ops s (f_mul ops x x), Suc n)"
  have inner: "foldl (\<lambda>(s, n) i. (f_add ops s (f_mul ops (fb_data b ! ch ! i) (fb_data b ! ch ! i)),
                                  Suc n))
                 acc [0..<fb_samples b] = foldl ?g acc (fb_data b ! ch)"
    if "ch < length (fb_data b)" for ch acc
  proof -
    have l: "length (fb_data b ! ch) = fb_samples b"
      using that assms by (simp add: floatbuffer_wf_def list_all_length)
    have fe: "(\<lambda>(s, n) i. (f_add ops s (f_mul ops (fb_data b ! ch ! i) (fb_data b ! ch ! i)),
                            Suc n)) =
              (\<lambda>a i. ?g a ((fb_data b ! ch) ! i))"
      by (simp add: fun_eq_iff case_prod_beta)
    show ?thesis
      unfolding fe l [symmetric] by (rule foldl_nth_upt)
  qed
  have "measure_loop_f ops b =
        foldl (\<lambda>acc ch. foldl ?g acc (fb_data b ! ch)) (f_const ops 0, 0)
          [0..<length (fb_data b)]"
    unfolding measure_loop_f_def
    using assms by (auto intro!: foldl_cong simp: inner floatbuffer_wf_def)
  also have "\<dots> = foldl (\<lambda>acc plane. foldl ?g acc plane) (f_const ops 0, 0) (fb_data b)"
    by (rule foldl_nth_upt)
  finally show ?thesis by (simp add: foldl_concat_planes)
qed

lemma square_loop_f:
  "foldl (\<lambda>(s, n) x. (f_add ops s (f_mul ops x x), Suc n)) (a, k) xs =
     (foldl (f_add ops) a (map (\<lambda>x. f_mul ops x x) xs), k + length xs)"
  by (induction xs arbitrary: a k) simp_all

lemma floatbuffer_count:
  assumes "floatbuffer_wf b"
  shows "length (concat (fb_data b)) = fb_channels b * fb_samples b"
proof -
  have h: "sum_list (map length planes) = length planes * k"
    if "list_all (\<lambda>plane. length plane = k) planes" for planes :: "'a list list" and k
    using that by (induction planes) simp_all
  have "list_all (\<lambda>plane. length plane = fb_samples b) (fb_data b)"
    using assms by (simp add: floatbuffer_wf_def)
  from h [OF this] show ?thesis
    using assms by (simp add: length_concat floatbuffer_wf_def)
qed

lemma measureLUFS_f_loudness:
  assumes "floatbuffer_wf b"
  shows "measureLUFS_f ops b = loudness_f ops (concat (fb_data b))"
  by (simp add: measureLUFS_f_def measure_loop_f_concat [OF assms] square_loop_f
      loudness_f_def mean_square_f_def)

lemma calculateOptimalLevels_f_eq:
  "calculateOptimalLevels_f ops t r tracks =
     map (\<lambda>track. f_pow ops (f_const ops 10)
                    (f_div ops (f_max ops (f_sub ops t (measureLUFS_f ops track)) (f_neg ops r))
                       (f_const ops 20)))
       tracks"
  by (simp add: calculateOptimalLevels_f_def Let_def comp_def)

text \<open>
  At the idealised arithmetic the functions of this section are those of the mixer.
\<close>

lemma measure_loop_exact: "measure_loop_f exact_ops (float_buffer b) = measure_loop b"
  by (simp add: measure_loop_f_def measure_loop_def exact_ops_def float_buffer_def
      getNumChannels_def getNumSamples_def)

lemma fdiv_of_size: "fdiv s (Num (real n)) = fdiv_size s n"
  by (cases s) simp_all

lemma measureLUFS_exact: "measureLUFS_f exact_ops (float_buffer b) = measureLUFS b"
proof -
  have "measureLUFS_f exact_ops (float_buffer b) =
        (let (sum, totalSamples) = measure_loop b;
          meanSquare = fdiv sum (Num (real totalSamples));
          lufs = fadd (fneg (Num 0.691)) (fmul (Num 10) (flog10 (fadd meanSquare (Num (1 / 10 ^ 10)))))
      in lufs)"
    unfolding measureLUFS_f_def measure_loop_exact by (simp add: exact_ops_def)
  then show ?thesis
    by (simp add: measureLUFS_def fdiv_of_size case_prod_beta)
qed

lemma fpow_ten: "fpow (Num 10) x = fpow10 x"
  by (cases x) simp_all

lemma f_max_exact: "f_max exact_ops a b = fmax a b"
  by (simp add: f_max_def fmax_def exact_ops_def)

lemma calculateOptimalLevels_exact:
  "calculateOptimalLevels_f exact_ops (Num (targetLUFS (mixer_settings' m)))
     (Num (maxGainReduction (mixer_settings' m))) (map float_buffer tracks) =
   calculateOptimalLevels m tracks"
  by (simp add: calculateOptimalLevels_f_eq calculateOptimalLevels_eq measureLUFS_exact
      f_max_exact comp_def)
     (simp add: exact_ops_def fpow_ten)

section \<open>Properties of the rendered mix\<close>

lemma process_eq:
  "AutoMixer_process m tracks =
     (if tracks = [] then AudioBuffer 2 0
      else foldl (mix_track m (analyzeTracks m tracks) tracks)
             (AudioBuffer 2 (foldl (\<lambda>n track. max n (getNumSamples track)) 0 tracks))
             [0..<length tracks])"
  by (simp add: AutoMixer_process_def Let_def)

lemma process_settings:
  assumes "targetLUFS (mixer_settings' m1) = targetLUFS (mixer_settings' m2)"
    and "maxGainReduction (mixer_settings' m1) = maxGainReduction (mixer_settings' m2)"
  shows "AutoMixer_process m1 tracks = AutoMixer_process m2 tracks"
  by (simp add: process_eq mix_track_fun trackGains_analyzeTracks
      calculateOptimalLevels_settings [OF assms])

lemma process_fields:
  "channels' (AutoMixer_process m tracks) = 2"
  "samples' (AutoMixer_process m tracks) =
     foldl (\<lambda>n track. max n (getNumSamples track)) 0 tracks"
  "buffer_wf (AutoMixer_process m tracks)"
  by (simp_all add: process_eq mix_loop_fields mix_loop_wf AudioBuffer_wf)
     (simp_all add: AudioBuffer_def)

lemma process_sample:
  assumes "list_all buffer_wf tracks"
    and "ch < 2" and "n < samples' (AutoMixer_process m tracks)"
  shows "data' (AutoMixer_process m tracks) ! ch ! n =
     foldl fadd (Num 0)
       (map (\<lambda>i. fmul (data' (tracks ! i) ! ch ! n) (trackGains (analyzeTracks m tracks) ! i))
          (filter (\<lambda>i. ch < channels' (tracks ! i) \<and> n < samples' (tracks ! i))
             [0..<length tracks]))"
proof (cases "tracks = []")
  case True
  then show ?thesis using assms(3) by (simp add: process_eq AudioBuffer_def)
next
  case False
  let ?N = "foldl (\<lambda>n track. max n (getNumSamples track)) 0 tracks"
  have n: "n < ?N" using assms(3) by (simp add: process_fields)
  have z: "data' (AudioBuffer 2 ?N) ! ch ! n = Num 0"
    using assms(2) n by (simp add: AudioBuffer_def)
  have c: "ch < channels' (AudioBuffer 2 ?N)" "n < samples' (AudioBuffer 2 ?N)"
    using assms(2) n by (simp_all add: AudioBuffer_def)
  show ?thesis
    using False
      mix_loop_sample [OF AudioBuffer_wf assms(1) order_refl c, of m "analyzeTracks m tracks"]
    by (simp add: process_eq z)
qed

lemma process_impulse:
  assumes "targetLUFS (mixer_settings' m) = - 16"
    and "maxGainReduction (mixer_settings' m) = 12"
  shows "data' (AutoMixer_process m [mono [1]]) = [[Num (10 powr (- 3 / 5))], [Num 0]]"
proof -
  have up: "[0..<2] = [0, 1]" by (simp add: numeral_2_eq_2)
  show ?thesis
    using impulse_gain [OF assms]
    by (simp add: process_eq mix_track_eq trackGains_analyzeTracks
        addFrom_def add_plane_def applyGain_def AudioBuffer_def mono_def getNumSamples_def
        Let_def up)
qed

lemma computeGain_below_one:
  assumes "knee (settings' c) = 2" and "makeupGain (settings' c) = 0"
    and "ratio (settings' c) = 2" and "threshold (settings' c) = - 300"
  shows "computeGain c env < 1"
proof -
  define L where "L = 20 * log 10 (max env (1 / 10 ^ 10))"
  have "log 10 (1 / 10 ^ 10) \<le> log 10 (max env (1 / 10 ^ 10))"
    by (subst log_le_cancel_iff) simp_all
  then have L: "- 200 \<le> L" unfolding log10_floor by (simp add: L_def)
  have "computeGain c env = 10 powr (- ((L + 300) * (1 / 2)) / 20)"
    using L unfolding computeGain_def Let_def assms L_def [symmetric] by simp
  moreover have "- ((L + 300) * (1 / 2)) / 20 < 0" using L by simp
  ultimately show ?thesis
    using powr_less_mono [of "- ((L + 300) * (1 / 2)) / 20" 0 10] by simp
qed

lemma compress_sample_attenuates:
  assumes "knee (settings' c) = 2" and "makeupGain (settings' c) = 0"
    and "ratio (settings' c) = 2" and "threshold (settings' c) = - 300"
    and "0 < x"
  shows "snd (compress_sample c x) < x"
proof -
  have "computeGain (c\<lparr>envelope' := e\<rparr>) e < 1" for e
    by (rule computeGain_below_one) (simp_all add: assms)
  then have "x * computeGain (c\<lparr>envelope' := e\<rparr>) e < x * 1" for e
    using assms(5) by (intro mult_strict_left_mono)
  then show ?thesis
    by (simp add: compress_sample_def Let_def)
qed

subsection \<open>Shape of the output and ragged inputs\<close>

text \<open>
  C4. For every track list \<open>AutoMixer::process\<close> returns a well-formed buffer of exactly
  two channels; for the empty list it is the \<open>(2, 0)\<close> buffer, otherwise its sample count
  is the maximum of the tracks' sample counts. For well-formed tracks every output sample
  \<open>[ch][n]\<close> is the sum, in track order and starting from 0, of the gain-scaled samples
  \<open>[ch][n]\<close> of exactly those tracks that have a channel \<open>ch\<close> and more than \<open>n\<close>
  samples: a shorter track contributes nothing past its own length.
\<close>

theorem process_shape_and_padding:
  "AutoMixer_process m [] = AudioBuffer 2 0 \<and>
   getNumChannels (AutoMixer_process m tracks) = 2 \<and>
   buffer_wf (AutoMixer_process m tracks) \<and>
   (tracks \<noteq> [] \<longrightarrow>
      getNumSamples (AutoMixer_process m tracks) = Max (getNumSamples ` set tracks)) \<and>
   (list_all buffer_wf tracks \<longrightarrow>
      (\<forall>ch n. ch < 2 \<longrightarrow> n < getNumSamples (AutoMixer_process m tracks) \<longrightarrow>
         data' (AutoMixer_process m tracks) ! ch ! n =
           foldl fadd (Num 0)
             (map (\<lambda>i. fmul (data' (tracks ! i) ! ch ! n) (trackGains (analyzeTracks m tracks) ! i))
                (filter (\<lambda>i. ch < getNumChannels (tracks ! i) \<and> n < getNumSamples (tracks ! i))
                   [0..<length tracks]))))"
proof -
  have e: "AutoMixer_process m [] = AudioBuffer 2 0" by (simp add: process_eq)
  have s: "getNumSamples (AutoMixer_process m tracks) = Max (getNumSamples ` set tracks)"
    if "tracks \<noteq> []"
    using max_loop_nonempty [OF that] by (simp add: getNumSamples_def process_fields)
  have p: "data' (AutoMixer_process m tracks) ! ch ! n =
           foldl fadd (Num 0)
             (map (\<lambda>i. fmul (data' (tracks ! i) ! ch ! n) (trackGains (analyzeTracks m tracks) ! i))
                (filter (\<lambda>i. ch < getNumChannels (tracks ! i) \<and> n < getNumSamples (tracks ! i))
                   [0..<length tracks]))"
    if "list_all buffer_wf tracks" "ch < 2" "n < getNumSamples (AutoMixer_process m tracks)"
    for ch n
    using process_sample [OF that(1,2), of n m] that(3)
    by (simp add: getNumSamples_def getNumChannels_def)
  have c: "getNumChannels (AutoMixer_process m tracks) = 2"
    by (simp add: getNumChannels_def process_fields)
  show ?thesis
    using e s p c process_fields(3) [of m tracks] by blast
qed

theorem process_shape_and_padding_witness:
  "list_all buffer_wf [mono [1, 2, 3], mono [4]] \<and>
   getNumChannels (AutoMixer_process (AutoMixer AutoMixerSettings) [mono [1, 2, 3], mono [4]]) = 2 \<and>
   getNumSamples (AutoMixer_process (AutoMixer AutoMixerSettings) [mono [1, 2, 3], mono [4]]) = 3 \<and>
   data' (AutoMixer_process (AutoMixer AutoMixerSettings) [mono [1, 2, 3], mono [4]]) ! 0 ! 2 =
     fadd (Num 0)
       (fmul (Num 3)
          (trackGains (analyzeTracks (AutoMixer AutoMixerSettings) [mono [1, 2, 3], mono [4]]) ! 0)) \<and>
   data' (AutoMixer_process (AutoMixer AutoMixerSettings) [mono [1, 2, 3], mono [4]]) ! 1 ! 2 = Num 0"
proof -
  let ?m = "AutoMixer AutoMixerSettings"
  let ?ts = "[mono [1, 2, 3], mono [4]]"
  note T = process_shape_and_padding [of ?m ?ts]
  have wf: "list_all buffer_wf ?ts" by (simp add: mono_wf)
  have c: "getNumChannels (AutoMixer_process ?m ?ts) = 2" using T by blast
  have "getNumSamples (AutoMixer_process ?m ?ts) = Max (getNumSamples ` set ?ts)"
    using T by blast
  then have n: "getNumSamples (AutoMixer_process ?m ?ts) = 3"
    by (simp add: getNumSamples_def mono_def)
  have up: "[0..<2] = [0, 1]" by (simp add: numeral_2_eq_2)
  have A: "data' (AutoMixer_process ?m ?ts) ! ch ! 2 =
           foldl fadd (Num 0)
             (map (\<lambda>i. fmul (data' (?ts ! i) ! ch ! 2) (trackGains (analyzeTracks ?m ?ts) ! i))
                (filter (\<lambda>i. ch < getNumChannels (?ts ! i) \<and> 2 < getNumSamples (?ts ! i))
                   [0..<length ?ts]))" if "ch < 2" for ch
    using T wf n that by simp
  have l: "data' (AutoMixer_process ?m ?ts) ! 0 ! 2 =
     fadd (Num 0) (fmul (Num 3) (trackGains (analyzeTracks ?m ?ts) ! 0))"
    using A [of 0] by (simp add: up getNumSamples_def getNumChannels_def mono_def)
  have r: "data' (AutoMixer_process ?m ?ts) ! 1 ! 2 = Num 0"
    using A [of 1] by (simp add: up getNumSamples_def getNumChannels_def mono_def)
  show ?thesis using wf c n l r by blast
qed

subsection \<open>Panning\<close>

text \<open>
  C1 does not hold of the code: the track loop has its pan step (\<open>Apply panning if
  enabled\<close>) but the step is empty. With \<open>enableSpatialProcessing\<close> true (the default) and
  a one-sample unit impulse on a single mono track, the planned pan position is 0, the
  left bus sample is the gain-scaled input \<open>10^(-3/5)\<close> and the right bus sample is 0. The
  pan law gives a right sample of \<open>sin (\<pi>/4)\<close> times the sample (scaled or not), which is
  not 0, and a left sample scaled by \<open>cos (\<pi>/4)\<close>.
\<close>

theorem process_pan_not_applied:
  "enableSpatialProcessing (mixer_settings' (AutoMixer AutoMixerSettings)) \<and>
   panPositions (analyzeTracks (AutoMixer AutoMixerSettings) [mono [1]]) = [0] \<and>
   data' (AutoMixer_process (AutoMixer AutoMixerSettings) [mono [1]]) =
     [[Num (10 powr (- 3 / 5))], [Num 0]] \<and>
   spec_pan_right 0 1 \<noteq> 0 \<and>
   spec_pan_right 0 (10 powr (- 3 / 5)) \<noteq> 0 \<and>
   spec_pan_left 0 (10 powr (- 3 / 5)) \<noteq> 10 powr (- 3 / 5)"
proof -
  let ?m = "AutoMixer AutoMixerSettings"
  have s: "targetLUFS (mixer_settings' ?m) = - 16" "maxGainReduction (mixer_settings' ?m) = 12"
    "enableSpatialProcessing (mixer_settings' ?m)"
    by (simp_all add: AutoMixer_def AutoMixerSettings_def)
  have p: "panPositions (analyzeTracks ?m [mono [1]]) = [0]"
    using s(3) by (simp add: analyzeTracks_def Let_def calculatePanPositions_def)
  have d: "data' (AutoMixer_process ?m [mono [1]]) = [[Num (10 powr (- 3 / 5))], [Num 0]]"
    by (rule process_impulse [OF s(1,2)])
  have g: "(0::real) < 10 powr (- 3 / 5)" by simp
  have "sqrt 2 < (2::real)"
    by (rule real_less_lsqrt) simp_all
  then have sq: "sqrt 2 / 2 < (1::real)" by simp
  have sn: "sin (pi / 4) = sqrt 2 / 2" by (rule sin_45)
  have cs: "cos (pi / 4) = sqrt 2 / 2" by (rule cos_45)
  have r1: "spec_pan_right 0 1 \<noteq> 0" by (simp add: spec_pan_right_def sn)
  have r2: "spec_pan_right 0 (10 powr (- 3 / 5)) \<noteq> 0"
    by (simp add: spec_pan_right_def sn)
  have l1: "spec_pan_left 0 (10 powr (- 3 / 5)) \<noteq> 10 powr (- 3 / 5)"
    using sq g by (simp add: spec_pan_left_def cs)
  show ?thesis using s(3) p d r1 r2 l1 by blast
qed

subsection \<open>Mix-bus compression\<close>

text \<open>
  C2 does not hold of the code: after the track loop comes the compression step (\<open>Apply
  mix bus compression\<close>), the mixer owns a compressor and the analysis plans its
  settings, but the step is empty and the raw bus sum is returned. With the mix-bus
  threshold set to -300 dB (everything else default) and a unit impulse on one mono
  track, the left channel returned is \<open>[10^(-3/5)]\<close>, while the planned compressor run
  over that channel attenuates the sample.
\<close>

theorem process_compression_not_applied:
  "data' (AutoMixer_process (AutoMixer (AutoMixerSettings\<lparr>mixBusCompThreshold := - 300\<rparr>))
            [mono [1]]) ! 0 = [Num (10 powr (- 3 / 5))] \<and>
   spec_bus_compress
     (mixBusCompressor (analyzeTracks (AutoMixer (AutoMixerSettings\<lparr>mixBusCompThreshold := - 300\<rparr>))
        [mono [1]]))
     [10 powr (- 3 / 5)] \<noteq> [10 powr (- 3 / 5)]"
proof -
  let ?m = "AutoMixer (AutoMixerSettings\<lparr>mixBusCompThreshold := - 300\<rparr>)"
  let ?plan = "mixBusCompressor (analyzeTracks ?m [mono [1]])"
  have s: "targetLUFS (mixer_settings' ?m) = - 16" "maxGainReduction (mixer_settings' ?m) = 12"
    by (simp_all add: AutoMixer_def AutoMixerSettings_def)
  have d: "data' (AutoMixer_process ?m [mono [1]]) ! 0 = [Num (10 powr (- 3 / 5))]"
    by (simp add: process_impulse [OF s])
  have plan: "?plan = \<lparr>threshold = - 300, ratio = 2, attack = 10, release = 100, knee = 2,
                        makeupGain = 0\<rparr>"
    by (simp add: analyzeTracks_def Let_def AutoMixer_def AutoMixerSettings_def
        CompressorSettings_def)
  have "snd (compress_sample (Compressor ?plan) (10 powr (- 3 / 5))) < 10 powr (- 3 / 5)"
    by (rule compress_sample_attenuates)
       (simp_all add: plan Compressor_def Compressor_updateCoefficients_def)
  then have ne: "snd (compress_sample (Compressor ?plan) (10 powr (- 3 / 5))) \<noteq> 10 powr (- 3 / 5)"
    by simp
  have "spec_bus_compress ?plan [10 powr (- 3 / 5)] =
        [snd (compress_sample (Compressor ?plan) (10 powr (- 3 / 5)))]"
    by (simp add: spec_bus_compress_def Let_def case_prod_beta)
  then show ?thesis using d ne by simp
qed

subsection \<open>Level balancing\<close>

text \<open>
  C3, as the claim states it, fails: the measured loudness does not floor the mean square
  at \<open>1e-10\<close>, it adds \<open>1e-10\<close> to it. For a one-sample track of value \<open>1e-5\<close> (mean
  square \<open>1e-10\<close>) the claim's gain is \<open>10^(84.691/20)\<close>; the gain computed is about 3 dB
  lower.
\<close>

theorem analysis_gain_floor_counterexample:
  "spec_gain (- 16) 12 [1 / 100000] = 10 powr (84.691 / 20) \<and>
   trackGains (analyzeTracks (AutoMixer AutoMixerSettings) [mono [1 / 100000]]) \<noteq>
     [Num (spec_gain (- 16) 12 [1 / 100000])]"
proof -
  let ?m = "AutoMixer AutoMixerSettings"
  have s: "targetLUFS (mixer_settings' ?m) = - 16" "maxGainReduction (mixer_settings' ?m) = 12"
    by (simp_all add: AutoMixer_def AutoMixerSettings_def)
  have g: "trackGains (analyzeTracks ?m [mono [1 / 100000]]) =
     [Num (10 powr (max (- 16 - code_loudness [1 / 100000]) (- 12) / 20))]"
    by (simp add: trackGains_analyzeTracks calculateOptimalLevels_eq measureLUFS_mono fmax_Num s)
  define lc where "lc = log 10 (2 / 10 ^ 10 :: real)"
  have ms: "mean_square [1 / 100000] = 1 / 10 ^ 10"
    by (simp add: mean_square_def power2_eq_square)
  have cl: "code_loudness [1 / 100000] = - 0.691 + 10 * lc"
    by (simp add: code_loudness_def ms lc_def)
  have sl: "spec_loudness [1 / 100000] = - 0.691 + 10 * (- 10)"
    unfolding spec_loudness_def ms by (simp only: max.idem log10_floor)
  have lo: "- 10 < lc"
    unfolding lc_def log10_floor [symmetric] by (subst log_less_cancel_iff) simp_all
  have "log 10 (1 / 10 :: real) = - 1"
    unfolding log_recip by simp
  moreover have "lc < log 10 (1 / 10 :: real)"
    unfolding lc_def by (subst log_less_cancel_iff) simp_all
  ultimately have hi: "lc < - 1" by simp
  have c: "max (- 16 - code_loudness [1 / 100000]) (- 12) = - 15.309 - 10 * lc"
    using hi by (simp add: cl max_def)
  have sp: "spec_gain (- 16) 12 [1 / 100000] = 10 powr (84.691 / 20)"
    by (simp add: spec_gain_def sl)
  have "(- 15.309 - 10 * lc) / 20 \<noteq> 84.691 / 20" using lo by simp
  then have "10 powr ((- 15.309 - 10 * lc) / 20) \<noteq> 10 powr (84.691 / 20)"
    by (simp only: powr_inj [of 10]) simp
  then show ?thesis using g c sp by simp
qed

text \<open>
  C3, amended, for every float arithmetic (single precision with its rounding included).
  For every track list and every track \<open>i\<close> of it that is well-formed and has at least one
  channel and one sample, the gain computed for the track is
  \<open>pow(10, max(targetLUFS - L\<^sub>i, -maxGainReduction) / 20)\<close> with
  \<open>L\<^sub>i = -0.691 + 10 log10(ms\<^sub>i + 1e-10)\<close> and \<open>ms\<^sub>i\<close> the sum of \<open>x\<^sup>2\<close> over all channels
  and samples of the track, accumulated in storage order, divided by their number (the
  channel count times the sample count); each operation is the arithmetic's own, so in
  floats the value is the real-number formula up to rounding. One gain is returned per
  track.
\<close>

theorem analysis_gain_per_track:
  assumes "i < length tracks" and "floatbuffer_wf (tracks ! i)"
    and "0 < fb_channels (tracks ! i) * fb_samples (tracks ! i)"
  shows "length (calculateOptimalLevels_f ops t r tracks) = length tracks \<and>
         calculateOptimalLevels_f ops t r tracks ! i =
           gain_f ops t r (concat (fb_data (tracks ! i))) \<and>
         length (concat (fb_data (tracks ! i))) =
           fb_channels (tracks ! i) * fb_samples (tracks ! i)"
  using assms(1)
  by (simp add: calculateOptimalLevels_f_eq measureLUFS_f_loudness [OF assms(2)] gain_f_def
      floatbuffer_count [OF assms(2)])

theorem analysis_gain_per_track_witness:
  "(1::nat) < length [float_buffer (AudioBuffer 1 0), float_buffer (mono [1])] \<and>
   floatbuffer_wf ([float_buffer (AudioBuffer 1 0), float_buffer (mono [1])] ! 1) \<and>
   0 < fb_channels ([float_buffer (AudioBuffer 1 0), float_buffer (mono [1])] ! 1) *
       fb_samples ([float_buffer (AudioBuffer 1 0), float_buffer (mono [1])] ! 1) \<and>
   calculateOptimalLevels_f exact_ops (Num (- 16)) (Num 12)
     [float_buffer (AudioBuffer 1 0), float_buffer (mono [1])] ! 1 = Num (10 powr (- 3 / 5))"
proof -
  let ?ts = "[float_buffer (AudioBuffer 1 0), float_buffer (mono [1])]"
  have i: "(1::nat) < length ?ts" by simp
  have wf: "floatbuffer_wf (?ts ! 1)"
    by (simp add: floatbuffer_wf_def float_buffer_def mono_def)
  have ne: "0 < fb_channels (?ts ! 1) * fb_samples (?ts ! 1)"
    by (simp add: float_buffer_def mono_def)
  note T = analysis_gain_per_track [OF i wf ne, of exact_ops "Num (- 16)" "Num 12"]
  define l where "l = log 10 (1 + 1 / 10 ^ 10 :: real)"
  have l0: "0 \<le> l" by (simp add: l_def)
  have c: "concat (fb_data (?ts ! 1)) = [Num 1]"
    by (simp add: float_buffer_def mono_def)
  have ld: "loudness_f exact_ops [Num 1] = Num (- 0.691 + 10 * l)"
    unfolding loudness_f_def mean_square_f_def l_def by (simp add: exact_ops_def)
  have "- 16 - (- 0.691 + 10 * l) < - 12" using l0 by simp
  then have g: "gain_f exact_ops (Num (- 16)) (Num 12) [Num 1] = Num (10 powr (- 3 / 5))"
    unfolding gain_f_def ld f_max_exact by (simp add: exact_ops_def fmax_def)
  show ?thesis using T i wf ne unfolding c g by blast
qed

subsection \<open>Divisors of the analysis\<close>

text \<open>
  C10 does not hold of the code. A track without samples, such as \<open>AudioBuffer(1, 0)\<close>,
  ends the loops of \<open>measureLUFS\<close> with \<open>sum = 0\<close> and \<open>totalSamples = 0\<close>: the mean-square
  division has a zero divisor, the measured loudness and the track's gain are NaN (the
  rendered buffer is not affected: the track has no sample to scale). For the empty track
  list, which \<open>process\<close> guards against and \<open>analyzeTracks\<close> does not, the average is
  the quotient of an empty sum by the size 0.
\<close>

theorem analysis_divides_by_zero:
  "measure_loop (AudioBuffer 1 0) = (Num 0, 0) \<and>
   measureLUFS (AudioBuffer 1 0) = NaN \<and>
   trackGains (analyzeTracks (AutoMixer AutoMixerSettings) [AudioBuffer 1 0]) = [NaN] \<and>
   data' (AutoMixer_process (AutoMixer AutoMixerSettings) [AudioBuffer 1 0]) = [[], []] \<and>
   avgLUFS (map measureLUFS []) = NaN \<and>
   trackGains (analyzeTracks (AutoMixer AutoMixerSettings) []) = []"
proof -
  have e: "channels' (AudioBuffer 1 0) = 0 \<or> samples' (AudioBuffer 1 0) = 0"
    by (simp add: AudioBuffer_def)
  have l: "measureLUFS (AudioBuffer 1 0) = NaN" by (rule measureLUFS_empty [OF e])
  have g: "trackGains (analyzeTracks (AutoMixer AutoMixerSettings) [AudioBuffer 1 0]) = [NaN]"
    using l by (simp add: trackGains_analyzeTracks calculateOptimalLevels_eq fmax_def)
  have up: "[0..<2] = [0, 1]" by (simp add: numeral_2_eq_2)
  have d: "data' (AutoMixer_process (AutoMixer AutoMixerSettings) [AudioBuffer 1 0]) = [[], []]"
    by (simp add: process_eq mix_track_eq addFrom_def add_plane_def applyGain_def
        AudioBuffer_def Let_def getNumSamples_def up)
  show ?thesis
    using measure_loop_empty [OF e] l g d
    by (simp add: avgLUFS_def trackGains_analyzeTracks calculateOptimalLevels_eq)
qed

end
